theory Spec2Isabelle
  imports Complex_Main "HOL-Library.AList"
begin

section \<open>Python values: exceptions, lists, dictionaries\<close>

text \<open>
  The driver \<^verbatim>\<open>linguistic_style_transfer_model/main.py\<close> and the plotting helper
  \<^verbatim>\<open>utils/tsne_interface.py\<close> are embedded as HOL functions. Python integers are
  \<^typ>\<open>int\<close>. An exception is a value: a fallible expression has type
  \<open>py_error + 'a\<close>, with \<open>Inl\<close> the exception raised. \<open>SystemExit\<close> carries the
  exit status of the process.
\<close>

datatype py_error =
    IndexError
  | KeyError
  | ZeroDivisionError
  | ValueError
  | OSError
  | SystemExit int

definition py_bind :: "py_error + 'a \<Rightarrow> ('a \<Rightarrow> py_error + 'b) \<Rightarrow> py_error + 'b" where
  "py_bind r f = (case r of Inl e \<Rightarrow> Inl e | Inr x \<Rightarrow> f x)"

text \<open>\<open>a % b\<close> on Python integers: floored, and \<open>ZeroDivisionError\<close> for \<open>b = 0\<close>.\<close>

definition py_mod :: "int \<Rightarrow> int \<Rightarrow> py_error + int" where
  "py_mod a b = (if b = 0 then Inl ZeroDivisionError else Inr (a mod b))"

text \<open>\<open>range(n)\<close>: the indices \<open>0, ..., n - 1\<close>, none when \<open>n \<le> 0\<close>.\<close>

definition py_range :: "int \<Rightarrow> nat list" where
  "py_range n = [0..<nat n]"

text \<open>\<open>xs[i]\<close> for an index \<open>i \<ge> 0\<close>: \<open>IndexError\<close> out of range.\<close>

definition list_getitem :: "'a list \<Rightarrow> nat \<Rightarrow> py_error + 'a" where
  "list_getitem xs i = (if i < length xs then Inr (xs ! i) else Inl IndexError)"

text \<open>
  A \<open>dict\<close> keeps its keys in insertion order, so it is an association list with
  distinct keys: \<open>d[k] = v\<close> replaces the value of a present key in place and appends an
  absent one (\<^const>\<open>AList.update\<close>), \<open>d[k]\<close> raises \<open>KeyError\<close> for an absent key.
\<close>

type_synonym ('k, 'v) dict = "('k \<times> 'v) list"

definition dict_contains :: "('k, 'v) dict \<Rightarrow> 'k \<Rightarrow> bool" where
  "dict_contains d k = (k \<in> fst ` set d)"

definition dict_getitem :: "('k, 'v) dict \<Rightarrow> 'k \<Rightarrow> py_error + 'v" where
  "dict_getitem d k = (case map_of d k of None \<Rightarrow> Inl KeyError | Some v \<Rightarrow> Inr v)"

definition dict_setitem :: "('k, 'v) dict \<Rightarrow> 'k \<Rightarrow> 'v \<Rightarrow> ('k, 'v) dict" where
  "dict_setitem d k v = AList.update k v d"

definition dict_keys :: "('k, 'v) dict \<Rightarrow> 'k list" where
  "dict_keys d = map fst d"

section \<open>Truncation to whole batches\<close>

text \<open>
  \<^verbatim>\<open>main\<close>, line 179:
  \<^verbatim>\<open>samples_size = data_size - (data_size % model_config.batch_size)\<close>.
  The module \<^verbatim>\<open>model_config\<close> is not among the sources; its constant \<open>batch_size\<close> is a
  parameter.
\<close>

definition samples_size :: "int \<Rightarrow> int \<Rightarrow> py_error + int" where
  "samples_size batch_size data_size =
     py_bind (py_mod data_size batch_size) (\<lambda>r. Inr (data_size - r))"

section \<open>\<^verbatim>\<open>get_average_label_embeddings\<close>\<close>

text \<open>
  One pass of the loop of lines 42-46, at index \<open>i\<close>:
  \<^verbatim>\<open>
    label = label_sequences[i][0]
    if label not in label_embedding_map:
        label_embedding_map[label] = list()
    label_embedding_map[label].append(style_embeddings[i])
  \<close>
  The type \<open>'e\<close> is the type of one row of the stored style embeddings.
\<close>

definition label_embedding_step ::
  "int list list \<Rightarrow> 'e list \<Rightarrow> (int, 'e list) dict \<Rightarrow> nat \<Rightarrow> py_error + (int, 'e list) dict" where
  "label_embedding_step label_sequences style_embeddings label_embedding_map i =
     py_bind (list_getitem label_sequences i) (\<lambda>row.
     py_bind (list_getitem row 0) (\<lambda>label.
     let m = (if \<not> dict_contains label_embedding_map label
              then dict_setitem label_embedding_map label []
              else label_embedding_map)
     in
     py_bind (dict_getitem m label) (\<lambda>embs.
     py_bind (list_getitem style_embeddings i) (\<lambda>emb.
     Inr (dict_setitem m label (embs @ [emb]))))))"

fun label_embedding_loop ::
  "int list list \<Rightarrow> 'e list \<Rightarrow> nat list \<Rightarrow> (int, 'e list) dict \<Rightarrow> py_error + (int, 'e list) dict" where
  "label_embedding_loop label_sequences style_embeddings [] m = Inr m"
| "label_embedding_loop label_sequences style_embeddings (i # rest) m =
     py_bind (label_embedding_step label_sequences style_embeddings m i)
       (label_embedding_loop label_sequences style_embeddings rest)"

text \<open>
  Lines 41-46: the map from each label to the list of the style embeddings of its
  examples, over \<^verbatim>\<open>range(data_size - (data_size % model_config.batch_size))\<close>. This is the
  map that line 49 pickles.
\<close>

definition label_embedding_map ::
  "int \<Rightarrow> 'e list \<Rightarrow> int \<Rightarrow> int list list \<Rightarrow> py_error + (int, 'e list) dict" where
  "label_embedding_map batch_size style_embeddings data_size label_sequences =
     py_bind (py_mod data_size batch_size) (\<lambda>r.
     label_embedding_loop label_sequences style_embeddings (py_range (data_size - r)) [])"

text \<open>
  Lines 52-54:
  \<^verbatim>\<open>
    for label in label_embedding_map:
        average_label_embeddings[label] = np.mean(label_embedding_map[label], axis=0)
  \<close>
  \<open>np.mean(_, axis=0)\<close>, numpy's element-wise mean of a list of rows, is the parameter
  \<open>np_mean\<close>: what is proved holds for every such function, the floating-point one of
  numpy included.
\<close>

fun average_loop ::
  "('e list \<Rightarrow> 'v) \<Rightarrow> (int, 'e list) dict \<Rightarrow> int list \<Rightarrow> (int, 'v) dict \<Rightarrow> py_error + (int, 'v) dict" where
  "average_loop np_mean m [] average_label_embeddings = Inr average_label_embeddings"
| "average_loop np_mean m (label # rest) average_label_embeddings =
     py_bind (dict_getitem m label) (\<lambda>embs.
     average_loop np_mean m rest (dict_setitem average_label_embeddings label (np_mean embs)))"

section \<open>Effects: the trace of a run\<close>

text \<open>
  What the driver does beyond computing values is recorded as a list of events, in the
  order of execution: log calls (with the message, format arguments left as \<open>{}\<close>), calls
  of the collaborators that are not among the sources, sessions opened and closed, files
  written. \<^verbatim>\<open>get_tensorflow_session\<close> is called at three places of \<^verbatim>\<open>main\<close>, each at most once in
  a run, so a session is named by the place that opens it.
\<close>

datatype session = TrainSession | InferSession | GenerateSession

datatype event =
    ArgparseError
  | ArgparseHelp
  | SetupLogger string
  | LogInfo string
  | LogDebug string
  | GetTextSequences string int
  | GetLabels string
  | RandomUniform int
  | AddWordVectorsToEmbeddings
  | BuildModel
  | OpenSession session
  | CloseSession session
  | Train session int int
  | Infer session int int
  | GenerateNovelSentences session int int
  | RandInt int int
  | PickleLoad
  | PickleDump
  | GetCorpusBleuScores "string list list list" "string list list"
  | WriteLines string "string list"

text \<open>
  A computation yields its events and then a value or the exception that ended it.
  \<open>run_bind\<close> is sequencing: what follows a raised exception does not run.
\<close>

type_synonym 'a run = "event list \<times> (py_error + 'a)"

definition ret :: "'a \<Rightarrow> 'a run" where
  "ret x = ([], Inr x)"

definition pure :: "py_error + 'a \<Rightarrow> 'a run" where
  "pure r = ([], r)"

definition emit :: "event \<Rightarrow> unit run" where
  "emit e = ([e], Inr ())"

definition call :: "event \<Rightarrow> py_error + 'a \<Rightarrow> 'a run" where
  "call e r = ([e], r)"

definition run_bind :: "'a run \<Rightarrow> ('a \<Rightarrow> 'b run) \<Rightarrow> 'b run" where
  "run_bind m f =
     (case m of (t, r) \<Rightarrow>
        (case r of
           Inl e \<Rightarrow> (t, Inl e)
         | Inr x \<Rightarrow> (case f x of (t', r') \<Rightarrow> (t @ t', r'))))"

section \<open>The collaborators outside the sources\<close>

text \<open>
  The modules \<^verbatim>\<open>global_config\<close>, \<^verbatim>\<open>model_config\<close>, \<^verbatim>\<open>data_preprocessor\<close>,
  \<^verbatim>\<open>data_postprocessor\<close>, \<^verbatim>\<open>word_embedder\<close>, \<^verbatim>\<open>bleu_scorer\<close> and
  \<^verbatim>\<open>adversarial_autoencoder\<close> are not among the sources, and numpy, pickle, random and the
  clock are libraries. What a run gets from them is a parameter: the constants, what each
  call returns or raises, the content of the pickled style embeddings, the random draws.
  \<open>'m\<close> is the type of an embedding matrix, \<open>'e\<close> of one style embedding. The network
  object is built from the data of the run, so its methods take only the arguments that
  \<^verbatim>\<open>main\<close> chooses.
\<close>

record ('m, 'e) env =
  config_sos_token :: string
  config_eos_token :: string
  config_batch_size :: int
  get_text_sequences ::
    "string \<Rightarrow> int \<Rightarrow> py_error + (int list list \<times> int list \<times> (string, int) dict \<times> int \<times> int list list)"
  get_labels :: "string \<Rightarrow> py_error + (int list list \<times> int \<times> int list list)"
  np_random_uniform :: "nat \<Rightarrow> int \<Rightarrow> py_error + 'm"
  add_word_vectors_to_embeddings ::
    "(string, int) dict \<Rightarrow> 'm \<Rightarrow> 'm \<Rightarrow> int \<Rightarrow> py_error + ('m \<times> 'm)"
  build_model :: "py_error + unit"
  network_train :: "int \<Rightarrow> int \<Rightarrow> py_error + unit"
  network_infer :: "int \<Rightarrow> int \<Rightarrow> py_error + (int list list \<times> int list)"
  network_generate_novel_sentences ::
    "int \<Rightarrow> int \<Rightarrow> 'e \<Rightarrow> py_error + (int list list \<times> int list)"
  random_seed :: int
  pickle_load :: "py_error + 'e list"
  numpy_mean :: "'e list \<Rightarrow> 'e"
  generate_words_from_indices :: "int list \<Rightarrow> (int, string) dict \<Rightarrow> py_error + string list"
  get_corpus_bleu_scores :: "string list list list \<Rightarrow> string list list \<Rightarrow> py_error + string"
  timestamp :: string

section \<open>More of Python and its libraries\<close>

text \<open>
  \<open>xs[start:stop]\<close>: an index below zero counts from the end, and both ends are clipped
  to the list.
\<close>

definition slice_index :: "int \<Rightarrow> nat \<Rightarrow> nat" where
  "slice_index i n = (if i < 0 then nat (max 0 (int n + i)) else min (nat i) n)"

definition py_slice :: "'a list \<Rightarrow> int \<Rightarrow> int \<Rightarrow> 'a list" where
  "py_slice xs start stop =
     (let a = slice_index start (length xs); b = slice_index stop (length xs)
      in take (b - a) (drop a xs))"

text \<open>\<open>min(xs)\<close>: \<open>ValueError\<close> on an empty sequence.\<close>

fun py_min :: "int list \<Rightarrow> py_error + int" where
  "py_min [] = Inl ValueError"
| "py_min (x # xs) = Inr (fold min xs x)"

text \<open>A list comprehension \<open>[f(x) for x in xs]\<close>: the first exception ends it.\<close>

fun py_map :: "('a \<Rightarrow> py_error + 'b) \<Rightarrow> 'a list \<Rightarrow> py_error + 'b list" where
  "py_map f [] = Inr []"
| "py_map f (x # xs) = py_bind (f x) (\<lambda>y. py_bind (py_map f xs) (\<lambda>ys. Inr (y # ys)))"

text \<open>\<open>sep.join(xs)\<close>.\<close>

fun py_join :: "string \<Rightarrow> string list \<Rightarrow> string" where
  "py_join sep [] = []"
| "py_join sep [x] = x"
| "py_join sep (x # y # ys) = x @ sep @ py_join sep (y # ys)"

text \<open>
  \<open>random.randint(a, b)\<close>: an integer of the closed interval from \<open>a\<close> to \<open>b\<close>, and
  \<open>ValueError\<close> when the interval is empty. The draw is decided by the seed of the run;
  every integer of the interval is the draw of some seed. The distribution of the draws
  is the library's and is not modelled.
\<close>

definition py_randint :: "int \<Rightarrow> int \<Rightarrow> int \<Rightarrow> py_error + int" where
  "py_randint seed a b = (if b < a then Inl ValueError else Inr (a + seed mod (b - a + 1)))"

text \<open>
  \<open>tf.keras.preprocessing.sequence.pad_sequences(sequences, maxlen=maxlen, padding='post',
  truncating='post', value=v)\<close>: an array of \<open>maxlen\<close> columns filled with \<open>v\<close>, each row
  overwritten from the left by the first \<open>maxlen\<close> elements of its sequence. numpy
  refuses a negative dimension with \<open>ValueError\<close>.
\<close>

definition pad_sequences :: "int list list \<Rightarrow> int \<Rightarrow> int \<Rightarrow> py_error + int list list" where
  "pad_sequences sequences maxlen v =
     (if maxlen < 0 then Inl ValueError
      else Inr (map (\<lambda>s. take (nat maxlen) s @ replicate (nat maxlen - length s) v) sequences))"

text \<open>\<open>{v: k for k, v in word_index.items()}\<close>: for a repeated value the last key stays.\<close>

definition inverse_index :: "('k, 'v) dict \<Rightarrow> ('v, 'k) dict" where
  "inverse_index word_index = fold (\<lambda>kv d. dict_setitem d (snd kv) (fst kv)) word_index []"

section \<open>\<^verbatim>\<open>get_data\<close>\<close>

text \<open>
  Lines 18-32. The value is the tuple the function returns: \<open>num_labels\<close>,
  \<open>max_sequence_length\<close>, \<open>vocab_size\<close>, \<open>sos_index\<close>, \<open>eos_index\<close>, \<open>padded_sequences\<close>,
  \<open>one_hot_labels\<close>, \<open>text_sequence_lengths\<close>, \<open>label_sequences\<close>, \<open>data_size\<close>,
  \<open>word_index\<close>, \<open>actual_sequences\<close>. \<open>padded_sequences.shape[0]\<close> is the number of rows.
\<close>

type_synonym data =
  "int \<times> int \<times> int \<times> int \<times> int \<times> int list list \<times> int list list \<times> int list \<times>
   int list list \<times> int \<times> (string, int) dict \<times> int list list"

definition get_data :: "('m, 'e) env \<Rightarrow> string \<Rightarrow> int \<Rightarrow> string \<Rightarrow> data run" where
  "get_data env text_file_path vocab_size label_file_path =
     run_bind (call (GetTextSequences text_file_path vocab_size)
                 (get_text_sequences env text_file_path vocab_size))
       (\<lambda>(padded_sequences, text_sequence_lengths, word_index, max_sequence_length, actual_sequences).
     run_bind (emit (LogDebug ''text_sequence_lengths: {}'')) (\<lambda>_.
     run_bind (emit (LogDebug ''padded_sequences: {}'')) (\<lambda>_.
     run_bind (pure (dict_getitem word_index (config_sos_token env))) (\<lambda>sos_index.
     run_bind (pure (dict_getitem word_index (config_eos_token env))) (\<lambda>eos_index.
     let data_size = int (length padded_sequences) in
     run_bind (call (GetLabels label_file_path) (get_labels env label_file_path))
       (\<lambda>(one_hot_labels, num_labels, label_sequences).
     run_bind (emit (LogDebug ''one_hot_labels.shape: {}'')) (\<lambda>_.
     ret (num_labels, max_sequence_length, vocab_size, sos_index, eos_index, padded_sequences,
          one_hot_labels, text_sequence_lengths, label_sequences, data_size, word_index,
          actual_sequences))))))))"

section \<open>\<^verbatim>\<open>get_average_label_embeddings\<close>, the whole function\<close>

text \<open>
  Lines 35-56: the stored style embeddings are unpickled, grouped by label over the
  truncated range, the grouped map is pickled, and the mean of each group is returned.
\<close>

definition get_average_label_embeddings ::
  "('m, 'e) env \<Rightarrow> int \<Rightarrow> int list list \<Rightarrow> (int, 'e) dict run" where
  "get_average_label_embeddings env data_size label_sequences =
     run_bind (call PickleLoad (pickle_load env)) (\<lambda>all_style_embeddings.
     run_bind (pure (label_embedding_map (config_batch_size env) all_style_embeddings
                       data_size label_sequences)) (\<lambda>m.
     run_bind (emit PickleDump) (\<lambda>_.
     run_bind (emit (LogDebug ''Pickled label mapped style embeddings'')) (\<lambda>_.
     pure (average_loop (numpy_mean env) m (dict_keys m) [])))))"

section \<open>\<^verbatim>\<open>flush_ground_truth_sentences\<close> and \<^verbatim>\<open>execute_post_inference_operations\<close>\<close>

text \<open>Lines 59-78.\<close>

definition flush_ground_truth_sentences ::
  "('m, 'e) env \<Rightarrow> int list list \<Rightarrow> int \<Rightarrow> int \<Rightarrow> int \<Rightarrow> (string, int) dict \<Rightarrow>
   (int, string) dict \<Rightarrow> string \<Rightarrow> string list list run" where
  "flush_ground_truth_sentences env actual_sequences start_index final_index max_sequence_length
     word_index inverse_word_index timestamped_file_suffix =
     (let sliced = py_slice actual_sequences start_index final_index in
      run_bind (pure (dict_getitem word_index (config_eos_token env))) (\<lambda>v.
      run_bind (pure (pad_sequences sliced max_sequence_length v)) (\<lambda>padded.
      run_bind (pure (py_map (\<lambda>x. generate_words_from_indices env x inverse_word_index) padded))
        (\<lambda>actual_word_lists.
      let actual_sentences = map (py_join '' '') actual_word_lists;
          output_file_path = ''output/actual_sentences_'' @ timestamped_file_suffix @ ''.txt''
      in
      run_bind (emit (WriteLines output_file_path actual_sentences)) (\<lambda>_.
      ret actual_word_lists)))))"

text \<open>
  Lines 86-90 of \<^verbatim>\<open>execute_post_inference_operations\<close>: each generated sequence is cut at
  its reported length, and the cut sequences are padded or cut to \<open>max_sequence_length\<close>.
\<close>

definition trimmed_generated_sequences :: "int list list \<Rightarrow> int list \<Rightarrow> int list list" where
  "trimmed_generated_sequences generated_sequences final_sequence_lengths =
     map (\<lambda>xy. py_slice (fst xy) 0 (snd xy)) (zip generated_sequences final_sequence_lengths)"

definition post_inference_sequences ::
  "('m, 'e) env \<Rightarrow> (string, int) dict \<Rightarrow> int list list \<Rightarrow> int list \<Rightarrow> int \<Rightarrow>
   py_error + int list list" where
  "post_inference_sequences env word_index generated_sequences final_sequence_lengths
     max_sequence_length =
     py_bind (dict_getitem word_index (config_eos_token env)) (\<lambda>v.
     pad_sequences (trimmed_generated_sequences generated_sequences final_sequence_lengths)
       max_sequence_length v)"

text \<open>Lines 81-105. The value is the list of sentences written to the output file.\<close>

definition execute_post_inference_operations ::
  "('m, 'e) env \<Rightarrow> (string, int) dict \<Rightarrow> string list list \<Rightarrow> int list list \<Rightarrow> int list \<Rightarrow> int \<Rightarrow>
   (int, string) dict \<Rightarrow> string \<Rightarrow> string \<Rightarrow> string list run" where
  "execute_post_inference_operations env word_index actual_word_lists generated_sequences
     final_sequence_lengths max_sequence_length inverse_word_index timestamped_file_suffix mode =
     run_bind (pure (py_min final_sequence_lengths)) (\<lambda>_.
     run_bind (emit (LogDebug ''Minimum generated sentence length: {}'')) (\<lambda>_.
     run_bind (pure (post_inference_sequences env word_index generated_sequences
                       final_sequence_lengths max_sequence_length)) (\<lambda>padded.
     run_bind (pure (py_map (\<lambda>x. generate_words_from_indices env x inverse_word_index) padded))
       (\<lambda>generated_word_lists.
     run_bind (call (GetCorpusBleuScores (map (\<lambda>x. [x]) actual_word_lists) generated_word_lists)
                 (get_corpus_bleu_scores env (map (\<lambda>x. [x]) actual_word_lists)
                    generated_word_lists)) (\<lambda>bleu_scores.
     run_bind (emit (LogInfo (''bleu_scores: '' @ bleu_scores))) (\<lambda>_.
     let generated_sentences = map (py_join '' '') generated_word_lists;
         output_file_path =
           ''output/generated_'' @ mode @ ''_'' @ timestamped_file_suffix @ ''.txt''
     in
     run_bind (emit (WriteLines output_file_path generated_sentences)) (\<lambda>_.
     ret generated_sentences)))))))"

section \<open>\<^verbatim>\<open>get_word_embeddings\<close>\<close>

text \<open>
  Lines 108-123. The two calls of \<open>np.random.uniform\<close> are the draws \<open>0\<close> and \<open>1\<close> of the
  run.
\<close>

definition get_word_embeddings ::
  "('m, 'e) env \<Rightarrow> int \<Rightarrow> (string, int) dict \<Rightarrow> bool \<Rightarrow> bool \<Rightarrow> ('m \<times> 'm) run" where
  "get_word_embeddings env vocab_size word_index use_pretrained_embeddings train_model =
     run_bind (call (RandomUniform vocab_size) (np_random_uniform env 0 vocab_size))
       (\<lambda>encoder_embedding_matrix.
     run_bind (emit (LogDebug ''encoder_embedding_matrix: {}'')) (\<lambda>_.
     run_bind (call (RandomUniform vocab_size) (np_random_uniform env 1 vocab_size))
       (\<lambda>decoder_embedding_matrix.
     run_bind (emit (LogDebug ''decoder_embedding_matrix: {}'')) (\<lambda>_.
     if train_model \<and> use_pretrained_embeddings then
       run_bind (emit (LogInfo ''Loading pretrained embeddings'')) (\<lambda>_.
       call AddWordVectorsToEmbeddings
         (add_word_vectors_to_embeddings env word_index encoder_embedding_matrix
            decoder_embedding_matrix vocab_size))
     else ret (encoder_embedding_matrix, decoder_embedding_matrix)))))"

section \<open>\<^verbatim>\<open>main\<close>\<close>

text \<open>
  The command line, as the parser of lines 127-137 (the library's \<open>argparse\<close>) reads it:
  for each flag whether it is given; for each option with a value the last well-formed
  value given, if any; how the scan of the arguments ends early, if it does; and the
  arguments that belong to no declared option. The scan ends early at \<^verbatim>\<open>-h\<close> or
  \<^verbatim>\<open>--help\<close> (the help text is printed and the process exits with status 0) and at an
  argument the parser refuses while it reads it: a value of \<^verbatim>\<open>--vocab-size\<close> or
  \<^verbatim>\<open>--training-epochs\<close> that is no integer, an option without its value, an ambiguous
  abbreviation (usage error, status 2). After a full scan the parser reports a missing
  required option, then the arguments it does not recognise (usage error, status 2).
  Every way \<^verbatim>\<open>parser.parse_args(argv)\<close> can end is a value of this type.
\<close>

datatype scan_stop = HelpRequested | ScanError

record command_line =
  opt_dev_mode :: bool
  opt_train_model :: bool
  opt_infer_sequences :: bool
  opt_generate_novel_text :: bool
  opt_use_pretrained_embeddings :: bool
  opt_training_epochs :: "int option"
  opt_vocab_size :: "int option"
  opt_text_file_path :: "string option"
  opt_label_file_path :: "string option"
  opt_logging_level :: "string option"
  opt_scan_stop :: "scan_stop option"
  opt_unrecognized :: "string list"

record command_line_args =
  arg_dev_mode :: bool
  arg_train_model :: bool
  arg_infer_sequences :: bool
  arg_generate_novel_text :: bool
  arg_use_pretrained_embeddings :: bool
  arg_training_epochs :: int
  arg_vocab_size :: int
  arg_text_file_path :: string
  arg_label_file_path :: string
  arg_logging_level :: string

definition parse_args :: "command_line \<Rightarrow> command_line_args run" where
  "parse_args argv =
     (case opt_scan_stop argv of
        Some HelpRequested \<Rightarrow> call ArgparseHelp (Inl (SystemExit 0))
      | Some ScanError \<Rightarrow> call ArgparseError (Inl (SystemExit 2))
      | None \<Rightarrow>
     (case opt_text_file_path argv of
        None \<Rightarrow> call ArgparseError (Inl (SystemExit 2))
      | Some text_file_path \<Rightarrow>
     (case opt_label_file_path argv of
        None \<Rightarrow> call ArgparseError (Inl (SystemExit 2))
      | Some label_file_path \<Rightarrow>
        if opt_unrecognized argv \<noteq> [] then call ArgparseError (Inl (SystemExit 2))
        else
        ret \<lparr> arg_dev_mode = opt_dev_mode argv,
              arg_train_model = opt_train_model argv,
              arg_infer_sequences = opt_infer_sequences argv,
              arg_generate_novel_text = opt_generate_novel_text argv,
              arg_use_pretrained_embeddings = opt_use_pretrained_embeddings argv,
              arg_training_epochs = (case opt_training_epochs argv of None \<Rightarrow> 10 | Some n \<Rightarrow> n),
              arg_vocab_size = (case opt_vocab_size argv of None \<Rightarrow> 1000 | Some n \<Rightarrow> n),
              arg_text_file_path = text_file_path,
              arg_label_file_path = label_file_path,
              arg_logging_level =
                (case opt_logging_level argv of None \<Rightarrow> ''INFO'' | Some l \<Rightarrow> l) \<rparr>)))"

text \<open>Lines 171-176: train and save the model.\<close>

definition train_block :: "('m, 'e) env \<Rightarrow> int \<Rightarrow> int \<Rightarrow> unit run" where
  "train_block env data_size training_epochs =
     run_bind (emit (LogInfo ''Training model ...'')) (\<lambda>_.
     run_bind (emit (OpenSession TrainSession)) (\<lambda>_.
     run_bind (call (Train TrainSession data_size training_epochs)
                 (network_train env data_size training_epochs)) (\<lambda>_.
     run_bind (emit (CloseSession TrainSession)) (\<lambda>_.
     emit (LogInfo ''Training complete!'')))))"

text \<open>Lines 191-201: restore the model and run inference.\<close>

definition infer_block ::
  "('m, 'e) env \<Rightarrow> int \<Rightarrow> int \<Rightarrow> (string, int) dict \<Rightarrow> string list list \<Rightarrow> int \<Rightarrow>
   (int, string) dict \<Rightarrow> string \<Rightarrow> unit run" where
  "infer_block env offset the_samples_size word_index actual_word_lists max_sequence_length
     inverse_word_index timestamped_file_suffix =
     run_bind (emit (LogInfo ''Inferring test samples ...'')) (\<lambda>_.
     run_bind (emit (OpenSession InferSession)) (\<lambda>_.
     run_bind (call (Infer InferSession offset the_samples_size)
                 (network_infer env offset the_samples_size))
       (\<lambda>(generated_sequences, final_sequence_lengths).
     run_bind (emit (CloseSession InferSession)) (\<lambda>_.
     run_bind (execute_post_inference_operations env word_index actual_word_lists
                 generated_sequences final_sequence_lengths max_sequence_length
                 inverse_word_index timestamped_file_suffix ''reconstructed_sentences'') (\<lambda>_.
     emit (LogInfo ''Inference complete!''))))))"

text \<open>
  Lines 206-210: the style is drawn, the average embeddings are computed, and the drawn
  style is looked up in them.
\<close>

definition choose_style_embedding ::
  "('m, 'e) env \<Rightarrow> int \<Rightarrow> int \<Rightarrow> int list list \<Rightarrow> 'e run" where
  "choose_style_embedding env num_labels data_size label_sequences =
     run_bind (call (RandInt 1 num_labels) (py_randint (random_seed env) 1 num_labels))
       (\<lambda>random_style_choice.
     run_bind (emit (LogDebug ''Style chosen: {}'')) (\<lambda>_.
     run_bind (get_average_label_embeddings env data_size label_sequences)
       (\<lambda>average_label_embeddings.
     pure (dict_getitem average_label_embeddings random_style_choice))))"

text \<open>Lines 204-218: enforce a style embedding and regenerate text.\<close>

definition generate_block ::
  "('m, 'e) env \<Rightarrow> int \<Rightarrow> int \<Rightarrow> int list list \<Rightarrow> int \<Rightarrow> int \<Rightarrow> (string, int) dict \<Rightarrow>
   string list list \<Rightarrow> int \<Rightarrow> (int, string) dict \<Rightarrow> string \<Rightarrow> unit run" where
  "generate_block env num_labels data_size label_sequences offset the_samples_size word_index
     actual_word_lists max_sequence_length inverse_word_index timestamped_file_suffix =
     run_bind (emit (LogInfo ''Generating novel text ...'')) (\<lambda>_.
     run_bind (choose_style_embedding env num_labels data_size label_sequences)
       (\<lambda>style_embedding.
     run_bind (emit (OpenSession GenerateSession)) (\<lambda>_.
     run_bind (call (GenerateNovelSentences GenerateSession offset the_samples_size)
                 (network_generate_novel_sentences env offset the_samples_size style_embedding))
       (\<lambda>(generated_sequences, final_sequence_lengths).
     run_bind (execute_post_inference_operations env word_index actual_word_lists
                 generated_sequences final_sequence_lengths max_sequence_length
                 inverse_word_index timestamped_file_suffix ''novel_sentences'') (\<lambda>_.
     emit (LogInfo ''Generation complete!''))))))"

text \<open>Lines 178-218: the sampling range, the ground truth, inference and generation.\<close>

definition sample_block ::
  "('m, 'e) env \<Rightarrow> bool \<Rightarrow> bool \<Rightarrow> int \<Rightarrow> int \<Rightarrow> int list list \<Rightarrow> int \<Rightarrow> (string, int) dict \<Rightarrow>
   int list list \<Rightarrow> unit run" where
  "sample_block env infer_sequences generate_novel_text num_labels max_sequence_length
     label_sequences data_size word_index actual_sequences =
     run_bind (pure (samples_size (config_batch_size env) data_size)) (\<lambda>the_samples_size.
     let offset = 0 in
     run_bind (emit (LogDebug ''Sampling range: {}-{}'')) (\<lambda>_.
     let inverse_word_index = inverse_index word_index;
         timestamped_file_suffix = timestamp env
     in
     run_bind (flush_ground_truth_sentences env actual_sequences offset
                 (offset + the_samples_size) max_sequence_length word_index inverse_word_index
                 timestamped_file_suffix) (\<lambda>actual_word_lists.
     run_bind (if infer_sequences
               then infer_block env offset the_samples_size word_index actual_word_lists
                      max_sequence_length inverse_word_index timestamped_file_suffix
               else ret ()) (\<lambda>_.
     if generate_novel_text
     then generate_block env num_labels data_size label_sequences offset the_samples_size
            word_index actual_word_lists max_sequence_length inverse_word_index
            timestamped_file_suffix
     else ret ()))))"

text \<open>
  Lines 151-218, what \<^verbatim>\<open>main\<close> does once it has found something to do: read the data,
  build the model, then train and sample as the flags say.
\<close>

definition work :: "('m, 'e) env \<Rightarrow> command_line_args \<Rightarrow> unit run" where
  "work env command_line_args =
     run_bind (emit (LogInfo ''Reading data ...'')) (\<lambda>_.
     run_bind (get_data env (arg_text_file_path command_line_args)
                 (arg_vocab_size command_line_args) (arg_label_file_path command_line_args))
       (\<lambda>(num_labels, max_sequence_length, vocab_size, sos_index, eos_index, padded_sequences,
          one_hot_labels, text_sequence_lengths, label_sequences, data_size, word_index,
          actual_sequences).
     run_bind (get_word_embeddings env vocab_size word_index
                 (arg_use_pretrained_embeddings command_line_args)
                 (arg_train_model command_line_args)) (\<lambda>_.
     run_bind (emit (LogInfo ''Building model architecture ...'')) (\<lambda>_.
     run_bind (call BuildModel (build_model env)) (\<lambda>_.
     run_bind (if arg_train_model command_line_args
               then train_block env data_size (arg_training_epochs command_line_args)
               else ret ()) (\<lambda>_.
     if arg_infer_sequences command_line_args \<or> arg_generate_novel_text command_line_args
     then sample_block env (arg_infer_sequences command_line_args)
            (arg_generate_novel_text command_line_args) num_labels max_sequence_length
            label_sequences data_size word_index actual_sequences
     else ret ()))))))"

text \<open>Lines 126-218.\<close>

definition main :: "('m, 'e) env \<Rightarrow> command_line \<Rightarrow> unit run" where
  "main env argv =
     run_bind (parse_args argv) (\<lambda>command_line_args.
     run_bind (emit (SetupLogger (arg_logging_level command_line_args))) (\<lambda>_.
     if \<not> (arg_train_model command_line_args \<or> arg_infer_sequences command_line_args \<or>
             arg_generate_novel_text command_line_args)
     then run_bind (emit (LogInfo ''Nothing to do. Exiting ...'')) (\<lambda>_.
          pure (Inl (SystemExit 0)))
     else work env command_line_args))"

section \<open>\<^verbatim>\<open>generate_plot_coordinates\<close>\<close>

text \<open>
  \<^verbatim>\<open>utils/tsne_interface.py\<close>, lines 13-19:
  \<^verbatim>\<open>
    for label in label_mapped_embeddings:
        markers.append(len(embeddings))
        for embedding in label_mapped_embeddings[label]:
            embeddings.append(embedding)
    markers.append(len(embeddings))
  \<close>
  The state of the loop is the pair of \<open>embeddings\<close> and \<open>markers\<close>.
\<close>

definition plot_step ::
  "('k, 'e list) dict \<Rightarrow> 'e list \<times> nat list \<Rightarrow> 'k \<Rightarrow> py_error + ('e list \<times> nat list)" where
  "plot_step label_mapped_embeddings st label =
     py_bind (dict_getitem label_mapped_embeddings label) (\<lambda>embs.
     Inr (fst st @ embs, snd st @ [length (fst st)]))"

fun plot_loop ::
  "('k, 'e list) dict \<Rightarrow> 'k list \<Rightarrow> 'e list \<times> nat list \<Rightarrow> py_error + ('e list \<times> nat list)" where
  "plot_loop label_mapped_embeddings [] st = Inr st"
| "plot_loop label_mapped_embeddings (label # rest) st =
     py_bind (plot_step label_mapped_embeddings st label)
       (plot_loop label_mapped_embeddings rest)"

text \<open>
  The embeddings and the markers after line 19. The rest of the function turns the
  embeddings into coordinates (t-SNE, a library) and pickles the coordinates with these
  markers; it does not change the markers.
\<close>

definition generate_plot_coordinates ::
  "('k, 'e list) dict \<Rightarrow> py_error + ('e list \<times> nat list)" where
  "generate_plot_coordinates label_mapped_embeddings =
     py_bind (plot_loop label_mapped_embeddings (dict_keys label_mapped_embeddings) ([], []))
       (\<lambda>st. Inr (fst st, snd st @ [length (fst st)]))"

section \<open>The data the properties speak of\<close>

text \<open>The label of example \<open>i\<close>, \<^verbatim>\<open>label_sequences[i][0]\<close>, where both reads are in range.\<close>

definition label_of :: "int list list \<Rightarrow> nat \<Rightarrow> int" where
  "label_of label_sequences i = hd (label_sequences ! i)"

text \<open>
  A data set covers its first \<open>n\<close> examples when each of them has a label row that is
  not empty and a stored style embedding.
\<close>

definition covers :: "int list list \<Rightarrow> 'e list \<Rightarrow> nat \<Rightarrow> bool" where
  "covers label_sequences style_embeddings n =
     (n \<le> length label_sequences \<and> n \<le> length style_embeddings \<and>
      list_all (\<lambda>row. row \<noteq> []) (take n label_sequences))"

text \<open>The number of embeddings a label map holds, over all labels.\<close>

definition total_embeddings :: "('k, 'e list) dict \<Rightarrow> nat" where
  "total_embeddings m = sum_list (map (\<lambda>kv. length (snd kv)) m)"


text \<open>
  The embeddings a label map holds for a label, none for a label without an entry.
\<close>

definition lookup_list :: "('k, 'e list) dict \<Rightarrow> 'k \<Rightarrow> 'e list" where
  "lookup_list m k = (case map_of m k of None \<Rightarrow> [] | Some xs \<Rightarrow> xs)"

text \<open>
  What the specification asks of the value stored for label \<open>l\<close>: the style embeddings
  of exactly the examples among \<open>idxs\<close> that carry \<open>l\<close>, in the order of the examples.
\<close>

definition grouped :: "int list list \<Rightarrow> 'e list \<Rightarrow> nat list \<Rightarrow> int \<Rightarrow> 'e list" where
  "grouped label_sequences style_embeddings idxs l =
     map (\<lambda>i. style_embeddings ! i) (filter (\<lambda>i. label_of label_sequences i = l) idxs)"

text \<open>
  The element-wise mean of rows of equal length in exact arithmetic, to run the model on
  concrete data (numpy rounds; the theorems do not depend on this definition).
\<close>

definition mean_axis0 :: "real list list \<Rightarrow> real list" where
  "mean_axis0 rows = map (\<lambda>col. sum_list col / real (length col)) (transpose rows)"


section \<open>Properties of traces\<close>

text \<open>A call of the BLEU scorer; a call of inference or of generation.\<close>

fun is_bleu :: "event \<Rightarrow> bool" where
  "is_bleu (GetCorpusBleuScores refs hyps) = True"
| "is_bleu _ = False"

fun is_inference :: "event \<Rightarrow> bool" where
  "is_inference (Infer s offset n) = True"
| "is_inference (GenerateNovelSentences s offset n) = True"
| "is_inference _ = False"

text \<open>
  Every call of the BLEU scorer in the trace comes after a call of inference or of
  generation; \<open>seen\<close> says whether one has been met already.
\<close>

fun bleu_after_inference :: "bool \<Rightarrow> event list \<Rightarrow> bool" where
  "bleu_after_inference seen [] = True"
| "bleu_after_inference seen (e # es) =
     ((if is_bleu e then seen else True) \<and> bleu_after_inference (seen \<or> is_inference e) es)"

text \<open>The sessions a trace opens and does not close, in the order of opening.\<close>

fun track_session :: "event \<Rightarrow> session list \<Rightarrow> session list" where
  "track_session (OpenSession s) opened = opened @ [s]"
| "track_session (CloseSession s) opened = removeAll s opened"
| "track_session _ opened = opened"

definition unclosed_sessions :: "event list \<Rightarrow> session list" where
  "unclosed_sessions t = fold track_session t []"

section \<open>Blocks and markers\<close>

text \<open>
  The offsets at which consecutive blocks start when they are laid out one after the
  other from offset \<open>n\<close>, followed by the offset after the last block.
\<close>

fun marks :: "nat \<Rightarrow> 'e list list \<Rightarrow> nat list" where
  "marks n [] = [n]"
| "marks n (b # bs) = n # marks (n + length b) bs"

section \<open>A small run\<close>

text \<open>
  A data set of five one-word sentences with the labels 1, 2, 1, 2, 1 and a batch size
  of 2, to run the definitions on: the word lookup stands for
  \<^verbatim>\<open>generate_words_from_indices\<close>, the network returns the four sentences of the two whole
  batches, and four style embeddings are stored.
\<close>

definition example_env :: "(nat, real list) env" where
  "example_env =
     \<lparr> config_sos_token = ''<sos>'',
       config_eos_token = ''<eos>'',
       config_batch_size = 2,
       get_text_sequences = (\<lambda>path vocab_size.
         Inr ([[3, 2, 2], [4, 2, 2], [3, 2, 2], [4, 2, 2], [3, 2, 2]], [1, 1, 1, 1, 1],
              [(''<sos>'', 1), (''<eos>'', 2), (''good'', 3), (''bad'', 4)], 3,
              [[3], [4], [3], [4], [3]])),
       get_labels = (\<lambda>path.
         Inr ([[1, 0], [0, 1], [1, 0], [0, 1], [1, 0]], 2, [[1], [2], [1], [2], [1]])),
       np_random_uniform = (\<lambda>k vocab_size. Inr k),
       add_word_vectors_to_embeddings = (\<lambda>word_index enc dec vocab_size. Inr (enc + 10, dec + 10)),
       build_model = Inr (),
       network_train = (\<lambda>data_size epochs. Inr ()),
       network_infer = (\<lambda>offset n. Inr ([[3, 2, 2], [4, 2, 2], [3, 2, 2], [4, 2, 2]], [1, 1, 1, 1])),
       network_generate_novel_sentences = (\<lambda>offset n style.
         Inr ([[3, 3, 2], [4, 3, 2], [3, 3, 2], [4, 3, 2]], [2, 2, 2, 2])),
       random_seed = 0,
       pickle_load = Inr [[1, 2], [3, 4], [5, 6], [7, 8]],
       numpy_mean = mean_axis0,
       generate_words_from_indices = (\<lambda>xs inverse_word_index. py_map (dict_getitem inverse_word_index) xs),
       get_corpus_bleu_scores = (\<lambda>refs hyps. Inr ''1.0''),
       timestamp = ''20180101000000'' \<rparr>"

text \<open>The command line with both file paths, no flag and nothing else.\<close>

definition example_argv :: command_line where
  "example_argv =
     \<lparr> opt_dev_mode = False,
       opt_train_model = False,
       opt_infer_sequences = False,
       opt_generate_novel_text = False,
       opt_use_pretrained_embeddings = False,
       opt_training_epochs = None,
       opt_vocab_size = None,
       opt_text_file_path = Some ''text.txt'',
       opt_label_file_path = Some ''labels.txt'',
       opt_logging_level = None,
       opt_scan_stop = None,
       opt_unrecognized = [] \<rparr>"

text \<open>
  The same run with a label file in which every example has label 1 although
  \<open>num_labels\<close> is 2, and a seed that draws style 2.
\<close>

definition example_env_missing_label :: "(nat, real list) env" where
  "example_env_missing_label =
     example_env
       \<lparr> get_labels := (\<lambda>path.
           Inr ([[1, 0], [1, 0], [1, 0], [1, 0], [1, 0]], 2, [[1], [1], [1], [1], [1]])),
         random_seed := 1 \<rparr>"

text \<open>
  The example of the specification: ten examples and a batch size of 4. The network
  returns one sentence for each example of the range it is given, and eight style
  embeddings are stored, one for each example of the two whole batches.
\<close>

definition example_env_ten :: "(nat, real list) env" where
  "example_env_ten =
     example_env
       \<lparr> config_batch_size := 4,
         get_text_sequences := (\<lambda>path vocab_size.
           Inr ([[3, 2, 2], [4, 2, 2], [3, 2, 2], [4, 2, 2], [3, 2, 2],
                 [4, 2, 2], [3, 2, 2], [4, 2, 2], [3, 2, 2], [4, 2, 2]],
                [1, 1, 1, 1, 1, 1, 1, 1, 1, 1],
                [(''<sos>'', 1), (''<eos>'', 2), (''good'', 3), (''bad'', 4)], 3,
                [[3], [4], [3], [4], [3], [4], [3], [4], [3], [4]])),
         get_labels := (\<lambda>path.
           Inr ([[1, 0], [0, 1], [1, 0], [0, 1], [1, 0], [0, 1], [1, 0], [0, 1], [1, 0], [0, 1]],
                2, [[1], [2], [1], [2], [1], [2], [1], [2], [1], [2]])),
         network_infer := (\<lambda>offset n. Inr (replicate (nat n) [3, 2, 2], replicate (nat n) 1)),
         network_generate_novel_sentences := (\<lambda>offset n style.
           Inr (replicate (nat n) [4, 3, 2], replicate (nat n) 2)),
         pickle_load := Inr [[1, 2], [3, 4], [5, 6], [7, 8], [1, 2], [3, 4], [5, 6], [7, 8]] \<rparr>"

section \<open>Sequencing\<close>

lemma fst_run_bind:
  "fst (run_bind m f) = fst m @ (case snd m of Inl e \<Rightarrow> [] | Inr x \<Rightarrow> fst (f x))"
  by (simp add: run_bind_def split: sum.splits prod.splits)

lemma snd_run_bind:
  "snd (run_bind m f) = py_bind (snd m) (\<lambda>x. snd (f x))"
  by (simp add: run_bind_def py_bind_def split: sum.splits prod.splits)

lemma run_bind_Inl:
  "snd m = Inl e \<Longrightarrow> run_bind m f = (fst m, Inl e)"
  by (cases m) (simp add: run_bind_def)

lemma run_bind_Inr:
  "snd m = Inr x \<Longrightarrow> run_bind m f = (fst m @ fst (f x), snd (f x))"
  by (cases m) (simp add: run_bind_def split: prod.splits)

lemma run_simps:
  "fst (ret x) = []" "snd (ret x) = Inr x"
  "fst (pure r) = []" "snd (pure r) = r"
  "fst (emit e) = [e]" "snd (emit e) = Inr ()"
  "fst (call e r) = [e]" "snd (call e r) = r"
  by (simp_all add: ret_def pure_def emit_def call_def)

lemma run_bind_ret: "run_bind (ret x) f = f x"
  by (simp add: run_bind_def ret_def split: prod.splits)

lemma list_all_run_bind:
  assumes "list_all P (fst m)" and "\<And>x. list_all P (fst (f x))"
  shows "list_all P (fst (run_bind m f))"
  using assms by (simp add: fst_run_bind split: sum.splits)

lemma list_all_run:
  "list_all P (fst (ret x))"
  "list_all P (fst (pure r))"
  "P e \<Longrightarrow> list_all P (fst (emit e))"
  "P e \<Longrightarrow> list_all P (fst (call e r))"
  by (simp_all add: run_simps)

lemma list_all_if:
  assumes "c \<Longrightarrow> list_all P (fst a)" and "\<not> c \<Longrightarrow> list_all P (fst b)"
  shows "list_all P (fst (if c then a else b))"
  using assms by simp


section \<open>Properties of the label maps\<close>

lemma total_embeddings_update:
  "total_embeddings (AList.update k v m) + length (lookup_list m k) = total_embeddings m + length v"
  by (induction m) (auto simp: total_embeddings_def lookup_list_def)

lemma label_embedding_step_Inr:
  assumes "label_embedding_step ls es m i = Inr m'"
  shows "i < length ls \<and> ls ! i \<noteq> [] \<and> i < length es \<and>
         m' = AList.update (label_of ls i) (lookup_list m (label_of ls i) @ [es ! i])
                (if label_of ls i \<in> fst ` set m then m else AList.update (label_of ls i) [] m)"
  using assms
  by (auto simp: label_embedding_step_def py_bind_def list_getitem_def dict_contains_def
      dict_setitem_def dict_getitem_def label_of_def lookup_list_def Let_def hd_conv_nth
      AList.update_conv' map_of_eq_None_iff[symmetric]
      split: if_splits sum.splits option.splits)

lemma label_embedding_step_succeeds:
  assumes "i < length ls" "ls ! i \<noteq> []" "i < length es"
  shows "\<exists>m'. label_embedding_step ls es m i = Inr m'"
  using assms
  by (auto simp: label_embedding_step_def py_bind_def list_getitem_def dict_contains_def
      dict_setitem_def dict_getitem_def Let_def AList.update_conv' map_of_eq_None_iff
      split: if_splits sum.splits option.splits)


lemma lookup_list_step:
  assumes "label_embedding_step ls es m i = Inr m'"
  shows "lookup_list m' l = lookup_list m l @ (if label_of ls i = l then [es ! i] else [])"
  using label_embedding_step_Inr[OF assms]
  by (auto simp: lookup_list_def AList.update_conv' map_of_eq_None_iff[symmetric] split: option.splits)

lemma keys_step:
  assumes "label_embedding_step ls es m i = Inr m'"
  shows "fst ` set m' = insert (label_of ls i) (fst ` set m)"
  using label_embedding_step_Inr[OF assms]
  by (auto simp: AList.dom_update)

lemma distinct_step:
  assumes "label_embedding_step ls es m i = Inr m'" "distinct (map fst m)"
  shows "distinct (map fst m')"
  using label_embedding_step_Inr[OF assms(1)] assms(2)
  by (auto simp: AList.distinct_update)

lemma total_step:
  assumes "label_embedding_step ls es m i = Inr m'"
  shows "total_embeddings m' = Suc (total_embeddings m)"
proof -
  let ?l = "label_of ls i"
  let ?m1 = "if ?l \<in> fst ` set m then m else AList.update ?l [] m"
  have m': "m' = AList.update ?l (lookup_list m ?l @ [es ! i]) ?m1"
    using label_embedding_step_Inr[OF assms] by simp
  have l1: "lookup_list ?m1 ?l = lookup_list m ?l"
    by (auto simp: lookup_list_def AList.update_conv' map_of_eq_None_iff[symmetric] split: option.splits)
  have t1: "total_embeddings ?m1 = total_embeddings m"
    using total_embeddings_update[of ?l "[]" m]
    by (auto simp: lookup_list_def map_of_eq_None_iff[symmetric] split: option.splits)
  show ?thesis
    using total_embeddings_update[of ?l "lookup_list m ?l @ [es ! i]" ?m1] l1 t1 m'
    by simp
qed

lemma label_embedding_loop_Inr:
  assumes "label_embedding_loop ls es idxs m = Inr m'"
  shows "(\<forall>i \<in> set idxs. i < length ls \<and> ls ! i \<noteq> [] \<and> i < length es) \<and>
         fst ` set m' = fst ` set m \<union> label_of ls ` set idxs \<and>
         (\<forall>l. lookup_list m' l = lookup_list m l @ grouped ls es idxs l) \<and>
         (distinct (map fst m) \<longrightarrow> distinct (map fst m')) \<and>
         total_embeddings m' = total_embeddings m + length idxs"
  using assms
proof (induction idxs arbitrary: m)
  case Nil
  then show ?case by (simp add: grouped_def)
next
  case (Cons i rest)
  from Cons.prems obtain m1 where
    s: "label_embedding_step ls es m i = Inr m1" and
    r: "label_embedding_loop ls es rest m1 = Inr m'"
    by (auto simp: py_bind_def split: sum.splits)
  note ih = Cons.IH[OF r]
  note st = label_embedding_step_Inr[OF s]
  show ?case
    using ih st keys_step[OF s] lookup_list_step[OF s] distinct_step[OF s] total_step[OF s]
    by (auto simp: grouped_def)
qed

lemma label_embedding_loop_succeeds:
  assumes "\<forall>i \<in> set idxs. i < length ls \<and> ls ! i \<noteq> [] \<and> i < length es"
  shows "\<exists>m'. label_embedding_loop ls es idxs m = Inr m'"
  using assms
proof (induction idxs arbitrary: m)
  case Nil
  then show ?case by simp
next
  case (Cons i rest)
  then obtain m1 where "label_embedding_step ls es m i = Inr m1"
    using label_embedding_step_succeeds[of i ls es m] by auto
  then show ?case using Cons by (simp add: py_bind_def)
qed


lemma average_loop_succeeds:
  assumes "set ls \<subseteq> fst ` set m"
  shows "\<exists>avg'. average_loop np_mean m ls avg = Inr avg'"
  using assms
proof (induction ls arbitrary: avg)
  case Nil
  then show ?case by simp
next
  case (Cons l rest)
  then have "map_of m l \<noteq> None"
    by (simp add: map_of_eq_None_iff)
  then obtain embs where "map_of m l = Some embs"
    by auto
  then show ?case using Cons by (simp add: py_bind_def dict_getitem_def)
qed

lemma average_loop_Inr:
  assumes "average_loop np_mean m ls avg = Inr avg'"
  shows "fst ` set avg' = fst ` set avg \<union> set ls \<and>
         (distinct (map fst avg) \<longrightarrow> distinct (map fst avg')) \<and>
         (\<forall>l. map_of avg' l = (if l \<in> set ls then Some (np_mean (lookup_list m l)) else map_of avg l))"
  using assms
proof (induction ls arbitrary: avg)
  case Nil
  then show ?case by simp
next
  case (Cons l rest)
  from Cons.prems obtain embs where
    g: "map_of m l = Some embs" and
    r: "average_loop np_mean m rest (AList.update l (np_mean embs) avg) = Inr avg'"
    by (auto simp: py_bind_def dict_getitem_def dict_setitem_def split: sum.splits option.splits)
  have e: "lookup_list m l = embs" using g by (simp add: lookup_list_def)
  show ?case
    using Cons.IH[OF r] e
    by (auto simp: AList.dom_update AList.distinct_update AList.update_conv')
qed

lemma label_embedding_map_eq:
  assumes "batch_size \<noteq> 0"
  shows "label_embedding_map batch_size es data_size ls =
         label_embedding_loop ls es [0..<nat (data_size - data_size mod batch_size)] []"
  using assms by (simp add: label_embedding_map_def py_bind_def py_mod_def py_range_def)

lemma covers_iff:
  "covers ls es n \<longleftrightarrow> (\<forall>i \<in> set [0..<n]. i < length ls \<and> ls ! i \<noteq> [] \<and> i < length es)"
proof
  assume c: "covers ls es n"
  show "\<forall>i \<in> set [0..<n]. i < length ls \<and> ls ! i \<noteq> [] \<and> i < length es"
  proof
    fix i assume "i \<in> set [0..<n]"
    then have i: "i < n" by simp
    from c have "n \<le> length ls" "n \<le> length es" "\<forall>row \<in> set (take n ls). row \<noteq> []"
      by (auto simp: covers_def list_all_iff)
    moreover from this i have "ls ! i \<in> set (take n ls)"
      by (metis in_set_conv_nth length_take min.absorb2 nth_take)
    ultimately show "i < length ls \<and> ls ! i \<noteq> [] \<and> i < length es" using i by auto
  qed
next
  assume a: "\<forall>i \<in> set [0..<n]. i < length ls \<and> ls ! i \<noteq> [] \<and> i < length es"
  have 1: "n \<le> length ls"
  proof (cases n)
    case 0 then show ?thesis by simp
  next
    case (Suc k) with a have "k < length ls" by simp
    with Suc show ?thesis by simp
  qed
  have 2: "n \<le> length es"
  proof (cases n)
    case 0 then show ?thesis by simp
  next
    case (Suc k) with a have "k < length es" by simp
    with Suc show ?thesis by simp
  qed
  have 3: "\<forall>row \<in> set (take n ls). row \<noteq> []"
  proof
    fix row assume "row \<in> set (take n ls)"
    then obtain i where "i < n" "i < length ls" "row = ls ! i"
      by (auto simp: in_set_conv_nth)
    with a show "row \<noteq> []" by simp
  qed
  from 1 2 3 show "covers ls es n" by (simp add: covers_def list_all_iff)
qed

lemma snd_get_average_label_embeddings:
  "snd (get_average_label_embeddings env data_size ls) =
     py_bind (pickle_load env) (\<lambda>es.
     py_bind (label_embedding_map (config_batch_size env) es data_size ls) (\<lambda>m.
     average_loop (numpy_mean env) m (dict_keys m) []))"
  by (simp add: get_average_label_embeddings_def snd_run_bind run_simps py_bind_def
      split: sum.splits)

lemma average_label_embeddings_of_prefix:
  assumes "pickle_load env = Inr es"
    and "config_batch_size env \<noteq> 0"
    and "covers ls es (nat (data_size - data_size mod config_batch_size env))"
  shows "\<exists>avg. snd (get_average_label_embeddings env data_size ls) = Inr avg \<and>
           distinct (dict_keys avg) \<and>
           set (dict_keys avg) =
             label_of ls ` {i. i < nat (data_size - data_size mod config_batch_size env)} \<and>
           (\<forall>l. map_of avg l =
              (if l \<in> set (dict_keys avg)
               then Some (numpy_mean env
                      (grouped ls es [0..<nat (data_size - data_size mod config_batch_size env)] l))
               else None))"
proof -
  let ?n = "nat (data_size - data_size mod config_batch_size env)"
  have e: "label_embedding_map (config_batch_size env) es data_size ls =
           label_embedding_loop ls es [0..<?n] []"
    by (rule label_embedding_map_eq[OF assms(2)])
  obtain m where m: "label_embedding_loop ls es [0..<?n] [] = Inr m"
    using label_embedding_loop_succeeds[of "[0..<?n]" ls es "[]"] assms(3)
    unfolding covers_iff by blast
  note mp = label_embedding_loop_Inr[OF m]
  obtain avg where a: "average_loop (numpy_mean env) m (dict_keys m) [] = Inr avg"
    using average_loop_succeeds[of "dict_keys m" m "numpy_mean env" "[]"]
    by (auto simp: dict_keys_def)
  note ap = average_loop_Inr[OF a]
  have g: "snd (get_average_label_embeddings env data_size ls) = Inr avg"
    by (simp add: snd_get_average_label_embeddings assms(1) e m a py_bind_def)
  have d: "distinct (dict_keys avg)"
    using ap by (simp add: dict_keys_def)
  have k: "set (dict_keys avg) = label_of ls ` {i. i < ?n}"
  proof -
    have "set (dict_keys avg) = fst ` set m"
      using ap by (simp add: dict_keys_def)
    also have "\<dots> = label_of ls ` set [0..<?n]"
      using mp by simp
    also have "set [0..<?n] = {i. i < ?n}"
      by auto
    finally show ?thesis .
  qed
  have v: "map_of avg l =
             (if l \<in> set (dict_keys avg)
              then Some (numpy_mean env (grouped ls es [0..<?n] l)) else None)" for l
  proof -
    have s: "set (dict_keys avg) = set (dict_keys m)"
      using ap by (simp add: dict_keys_def)
    have "lookup_list m l = grouped ls es [0..<?n] l"
      using mp by (simp add: lookup_list_def)
    moreover have "map_of avg l = None" if "l \<notin> set (dict_keys m)"
      using that ap by simp
    moreover have "map_of avg l = Some (numpy_mean env (lookup_list m l))"
      if "l \<in> set (dict_keys m)"
      using that ap by simp
    ultimately show ?thesis
      using s by auto
  qed
  from g d k v show ?thesis by blast
qed

text \<open>
  Claim C2. When the stored style embeddings and the label rows cover the truncated
  prefix (the first \<open>data_size - data_size mod batch_size\<close> examples), the function
  returns a map whose keys are distinct and are exactly the labels of the examples of
  that prefix, and the value of each key is \<open>np.mean(_, axis=0)\<close> of the style embeddings
  of exactly the examples of the prefix that carry the label.
\<close>

theorem get_average_label_embeddings_correct:
  assumes "pickle_load env = Inr es"
    and "config_batch_size env \<noteq> 0"
    and "covers ls es (nat (data_size - data_size mod config_batch_size env))"
  shows "\<exists>avg. snd (get_average_label_embeddings env data_size ls) = Inr avg \<and>
           distinct (dict_keys avg) \<and>
           set (dict_keys avg) =
             label_of ls ` {i. i < nat (data_size - data_size mod config_batch_size env)} \<and>
           (\<forall>l \<in> set (dict_keys avg).
              dict_getitem avg l =
                Inr (numpy_mean env
                  (grouped ls es [0..<nat (data_size - data_size mod config_batch_size env)] l)))"
proof -
  from average_label_embeddings_of_prefix[OF assms] obtain avg where
    a: "snd (get_average_label_embeddings env data_size ls) = Inr avg"
       "distinct (dict_keys avg)"
       "set (dict_keys avg) =
          label_of ls ` {i. i < nat (data_size - data_size mod config_batch_size env)}"
    and v: "\<And>l. map_of avg l =
              (if l \<in> set (dict_keys avg)
               then Some (numpy_mean env
                      (grouped ls es [0..<nat (data_size - data_size mod config_batch_size env)] l))
               else None)"
    by blast
  have "\<forall>l \<in> set (dict_keys avg).
          dict_getitem avg l =
            Inr (numpy_mean env
              (grouped ls es [0..<nat (data_size - data_size mod config_batch_size env)] l))"
    by (simp add: dict_getitem_def v)
  with a show ?thesis by blast
qed

theorem get_average_label_embeddings_correct_witness:
  "pickle_load example_env = Inr [[1, 2], [3, 4], [5, 6], [7, 8]] \<and>
   config_batch_size example_env \<noteq> 0 \<and>
   covers [[1], [2], [1], [2], [1]] [[1, 2], [3, 4], [5, 6], [7, 8 :: real]]
     (nat (5 - 5 mod config_batch_size example_env)) \<and>
   snd (get_average_label_embeddings example_env 5 [[1], [2], [1], [2], [1]]) =
     Inr [(1, [3, 4]), (2, [5, 6])] \<and>
   (\<exists>avg. snd (get_average_label_embeddings example_env 5 [[1], [2], [1], [2], [1]]) = Inr avg \<and>
      distinct (dict_keys avg) \<and>
      set (dict_keys avg) =
        label_of [[1], [2], [1], [2], [1]] ` {i. i < nat (5 - 5 mod config_batch_size example_env)} \<and>
      (\<forall>l \<in> set (dict_keys avg).
         dict_getitem avg l =
           Inr (numpy_mean example_env
             (grouped [[1], [2], [1], [2], [1]] [[1, 2], [3, 4], [5, 6], [7, 8]]
                [0..<nat (5 - 5 mod config_batch_size example_env)] l))))"
proof -
  have h1: "pickle_load example_env = Inr [[1, 2], [3, 4], [5, 6], [7, 8]]"
    by (simp add: example_env_def)
  have h2: "config_batch_size example_env \<noteq> 0"
    by (simp add: example_env_def)
  have h3: "covers [[1], [2], [1], [2], [1]] [[1, 2], [3, 4], [5, 6], [7, 8 :: real]]
              (nat (5 - 5 mod config_batch_size example_env))"
    by code_simp
  have h4: "snd (get_average_label_embeddings example_env 5 [[1], [2], [1], [2], [1]]) =
              Inr [(1, [3, 4]), (2, [5, 6])]"
    by code_simp
  from get_average_label_embeddings_correct[OF h1 h2 h3] h1 h2 h3 h4 show ?thesis
    by blast
qed

section \<open>The markers of \<^verbatim>\<open>generate_plot_coordinates\<close>\<close>

lemma marks_snoc: "marks n (bs @ [b]) = marks n bs @ [n + length (concat bs) + length b]"
  by (induction bs arbitrary: n) (simp_all add: add.assoc)

lemma length_marks: "length (marks n bs) = Suc (length bs)"
  by (induction bs arbitrary: n) simp_all

lemma marks_nth: "i \<le> length bs \<Longrightarrow> marks n bs ! i = n + length (concat (take i bs))"
proof (induction bs arbitrary: n i)
  case Nil
  then show ?case by simp
next
  case (Cons b bs)
  then show ?case by (cases i) (simp_all add: add.assoc)
qed

lemma marks_ge: "m \<in> set (marks n bs) \<Longrightarrow> n \<le> m"
  by (induction bs arbitrary: n) fastforce+

lemma sorted_marks: "sorted (marks n bs)"
proof (induction bs arbitrary: n)
  case Nil
  then show ?case by simp
next
  case (Cons b bs)
  have "\<forall>m \<in> set (marks (n + length b) bs). n \<le> m"
    using marks_ge[of _ "n + length b" bs] by fastforce
  with Cons show ?case by simp
qed

lemma marks_ne: "marks n bs \<noteq> []"
  by (cases bs) simp_all

lemma last_marks: "last (marks n bs) = n + length (concat bs)"
  by (induction bs arbitrary: n) (simp_all add: marks_ne add.assoc)

lemma block_of_concat:
  assumes "i < length bs"
  shows "take (length (bs ! i)) (drop (length (concat (take i bs))) (concat bs)) = bs ! i"
proof -
  have "concat bs = concat (take i bs) @ bs ! i @ concat (drop (Suc i) bs)"
    using assms by (metis append_take_drop_id concat.simps(2) concat_append Cons_nth_drop_Suc)
  then show ?thesis
    by (metis append_eq_conv_conj)
qed

lemma marks_block:
  assumes "i < length bs"
  shows "take (marks 0 bs ! Suc i - marks 0 bs ! i) (drop (marks 0 bs ! i) (concat bs)) = bs ! i"
proof -
  have a: "marks 0 bs ! i = length (concat (take i bs))"
    using assms marks_nth[of i bs 0] by simp
  have "take (Suc i) bs = take i bs @ [bs ! i]"
    using assms by (simp add: take_Suc_conv_app_nth)
  then have b: "marks 0 bs ! Suc i = length (concat (take i bs)) + length (bs ! i)"
    using assms marks_nth[of "Suc i" bs 0] by simp
  show ?thesis
    unfolding a b using block_of_concat[OF assms] by simp
qed

lemma plot_loop_Inr:
  assumes "set ks \<subseteq> fst ` set d"
  shows "plot_loop d ks st =
           Inr (fst st @ concat (map (lookup_list d) ks),
                snd st @ butlast (marks (length (fst st)) (map (lookup_list d) ks)))"
  using assms
proof (induction ks arbitrary: st)
  case Nil
  then show ?case by simp
next
  case (Cons k ks)
  then have "map_of d k \<noteq> None"
    by (simp add: map_of_eq_None_iff)
  then obtain embs where e: "map_of d k = Some embs"
    by auto
  then have l: "lookup_list d k = embs"
    by (simp add: lookup_list_def)
  have s: "plot_step d st k = Inr (fst st @ embs, snd st @ [length (fst st)])"
    by (simp add: plot_step_def dict_getitem_def e py_bind_def)
  show ?case
    using Cons s l by (simp add: py_bind_def marks_ne)
qed

lemma lookup_distinct:
  assumes "distinct (map fst d)"
  shows "map (lookup_list d) (map fst d) = map snd d"
proof (rule nth_equalityI)
  show "length (map (lookup_list d) (map fst d)) = length (map snd d)"
    by simp
next
  fix i assume "i < length (map (lookup_list d) (map fst d))"
  then have i: "i < length d" by simp
  then have "(fst (d ! i), snd (d ! i)) \<in> set d"
    by (metis nth_mem prod.collapse)
  with assms have "map_of d (fst (d ! i)) = Some (snd (d ! i))"
    by (simp add: map_of_is_SomeI)
  with i show "map (lookup_list d) (map fst d) ! i = map snd d ! i"
    by (simp add: lookup_list_def)
qed

text \<open>
  Claim C10. For a dictionary (distinct keys) from labels to lists of embeddings, the
  loop collects the embeddings of all labels in iteration order, and the markers are one
  more than the labels, start at 0, end at the number of embeddings, never decrease, and
  each consecutive pair of markers delimits exactly the embeddings of the label at that
  position. This holds for the empty dictionary too.
\<close>

theorem generate_plot_coordinates_markers:
  assumes "distinct (dict_keys d)"
  shows "\<exists>embeddings markers.
           generate_plot_coordinates d = Inr (embeddings, markers) \<and>
           embeddings = concat (map snd d) \<and>
           length embeddings = total_embeddings d \<and>
           length markers = length (dict_keys d) + 1 \<and>
           markers ! 0 = 0 \<and>
           last markers = length embeddings \<and>
           sorted markers \<and>
           (\<forall>i < length d.
              take (markers ! Suc i - markers ! i) (drop (markers ! i) embeddings) = snd (d ! i))"
proof -
  let ?bs = "map snd d"
  have k: "set (dict_keys d) \<subseteq> fst ` set d"
    by (simp add: dict_keys_def)
  have b: "map (lookup_list d) (dict_keys d) = ?bs"
    using lookup_distinct assms by (simp add: dict_keys_def)
  have ne: "marks 0 ?bs \<noteq> []"
    by (rule marks_ne)
  have g: "generate_plot_coordinates d = Inr (concat ?bs, marks 0 ?bs)"
    using plot_loop_Inr[OF k, of "([], [])"] b ne last_marks[of 0 ?bs]
    by (simp add: generate_plot_coordinates_def py_bind_def snoc_eq_iff_butlast)
  have t: "length (concat ?bs) = total_embeddings d"
    by (simp add: total_embeddings_def length_concat comp_def)
  have n: "length (marks 0 ?bs) = length (dict_keys d) + 1"
    by (simp add: length_marks dict_keys_def)
  have z: "marks 0 ?bs ! 0 = 0"
    using marks_nth[of 0 ?bs 0] by simp
  have l: "last (marks 0 ?bs) = length (concat ?bs)"
    by (simp add: last_marks)
  have blk: "\<forall>i < length d.
      take (marks 0 ?bs ! Suc i - marks 0 ?bs ! i) (drop (marks 0 ?bs ! i) (concat ?bs)) = snd (d ! i)"
    using marks_block[of _ ?bs] by simp
  from g t n z l sorted_marks[of 0 ?bs] blk show ?thesis
    by blast
qed

theorem generate_plot_coordinates_markers_witness:
  "distinct (dict_keys [(1::int, [10, 11::nat]), (2, []), (3, [12])]) \<and>
   generate_plot_coordinates [(1::int, [10, 11::nat]), (2, []), (3, [12])] =
     Inr ([10, 11, 12], [0, 2, 2, 3]) \<and>
   (\<exists>embeddings markers.
      generate_plot_coordinates [(1::int, [10, 11::nat]), (2, []), (3, [12])] =
        Inr (embeddings, markers) \<and>
      length markers = length (dict_keys [(1::int, [10, 11::nat]), (2, []), (3, [12])]) + 1 \<and>
      markers ! 0 = 0 \<and> last markers = length embeddings \<and> sorted markers)"
proof -
  have h: "distinct (dict_keys [(1::int, [10, 11::nat]), (2, []), (3, [12])])"
    by (simp add: dict_keys_def)
  have e: "generate_plot_coordinates [(1::int, [10, 11::nat]), (2, []), (3, [12])] =
             Inr ([10, 11, 12], [0, 2, 2, 3])"
    by code_simp
  from generate_plot_coordinates_markers[OF h] h e show ?thesis
    by blast
qed

section \<open>The events of each part of \<^verbatim>\<open>main\<close>\<close>

text \<open>
  Each lemma bounds the events a part of the driver can record: a property that holds of
  every event the part may emit holds of its whole trace, whatever the collaborators
  return or raise.
\<close>

lemma get_data_events:
  assumes "\<And>s. P (LogDebug s)" "\<And>p v. P (GetTextSequences p v)" "\<And>p. P (GetLabels p)"
  shows "list_all P (fst (get_data env t v l))"
  unfolding get_data_def Let_def
  by (intro list_all_run_bind list_all_run assms | simp only: split_beta)+

lemma get_word_embeddings_events:
  assumes "\<And>s. P (LogDebug s)" "\<And>s. P (LogInfo s)" "\<And>v. P (RandomUniform v)"
    "P AddWordVectorsToEmbeddings"
  shows "list_all P (fst (get_word_embeddings env vs wi upe tm))"
  unfolding get_word_embeddings_def
  by (intro list_all_run_bind list_all_run list_all_if assms)

lemma train_block_events:
  assumes "\<And>s. P (LogInfo s)" "P (OpenSession TrainSession)" "\<And>a b. P (Train TrainSession a b)"
    "P (CloseSession TrainSession)"
  shows "list_all P (fst (train_block env d e))"
  unfolding train_block_def
  by (intro list_all_run_bind list_all_run assms)

lemma flush_ground_truth_sentences_events:
  assumes "\<And>xs. P (WriteLines (''output/actual_sentences_'' @ ts @ ''.txt'') xs)"
  shows "list_all P (fst (flush_ground_truth_sentences env a s f m wi iwi ts))"
  unfolding flush_ground_truth_sentences_def Let_def
  by (intro list_all_run_bind list_all_run assms)

lemma get_average_label_embeddings_events:
  assumes "\<And>s. P (LogDebug s)" "P PickleLoad" "P PickleDump"
  shows "list_all P (fst (get_average_label_embeddings env d ls))"
  unfolding get_average_label_embeddings_def
  by (intro list_all_run_bind list_all_run assms)

lemma choose_style_embedding_events:
  assumes "\<And>s. P (LogDebug s)" "P PickleLoad" "P PickleDump" "\<And>a b. P (RandInt a b)"
  shows "list_all P (fst (choose_style_embedding env n d ls))"
  unfolding choose_style_embedding_def
  by (intro list_all_run_bind list_all_run get_average_label_embeddings_events assms)

lemma execute_post_inference_operations_events:
  assumes "\<And>s. P (LogDebug s)" "\<And>s. P (LogInfo s)" "\<And>r h. P (GetCorpusBleuScores r h)"
    "\<And>xs. P (WriteLines (''output/generated_'' @ mode @ ''_'' @ ts @ ''.txt'') xs)"
  shows "list_all P (fst (execute_post_inference_operations env wi awl gs fsl m iwi ts mode))"
  unfolding execute_post_inference_operations_def Let_def
  by (intro list_all_run_bind list_all_run assms)

lemma infer_block_events:
  assumes "\<And>s. P (LogDebug s)" "\<And>s. P (LogInfo s)" "\<And>r h. P (GetCorpusBleuScores r h)"
    "\<And>mode xs. P (WriteLines (''output/generated_'' @ mode @ ''_'' @ ts @ ''.txt'') xs)"
    "P (OpenSession InferSession)" "P (CloseSession InferSession)"
    "P (Infer InferSession off n)"
  shows "list_all P (fst (infer_block env off n wi awl m iwi ts))"
  unfolding infer_block_def
  by (intro list_all_run_bind list_all_run execute_post_inference_operations_events assms
      | simp only: split_beta)+

lemma generate_block_events:
  assumes "\<And>s. P (LogDebug s)" "\<And>s. P (LogInfo s)" "\<And>r h. P (GetCorpusBleuScores r h)"
    "\<And>mode xs. P (WriteLines (''output/generated_'' @ mode @ ''_'' @ ts @ ''.txt'') xs)"
    "P (OpenSession GenerateSession)"
    "P (GenerateNovelSentences GenerateSession off n)"
    "P PickleLoad" "P PickleDump" "\<And>a b. P (RandInt a b)"
  shows "list_all P (fst (generate_block env nl d ls off n wi awl m iwi ts))"
  unfolding generate_block_def
  by (intro list_all_run_bind list_all_run execute_post_inference_operations_events
        choose_style_embedding_events assms
      | simp only: split_beta)+

lemma sample_block_events:
  assumes "\<And>s. P (LogDebug s)" "\<And>s. P (LogInfo s)" "\<And>r h. P (GetCorpusBleuScores r h)"
    "\<And>p xs. P (WriteLines p xs)" "P (OpenSession InferSession)" "P (CloseSession InferSession)"
    "\<And>a b. P (Infer InferSession a b)" "P (OpenSession GenerateSession)"
    "\<And>a b. P (GenerateNovelSentences GenerateSession a b)"
    "P PickleLoad" "P PickleDump" "\<And>a b. P (RandInt a b)"
  shows "list_all P (fst (sample_block env do_infer do_generate nl m ls d wi a))"
  unfolding sample_block_def Let_def
  by (intro list_all_run_bind list_all_run list_all_if infer_block_events generate_block_events
        flush_ground_truth_sentences_events assms)

lemma work_events:
  assumes "\<And>s. P (LogDebug s)" "\<And>s. P (LogInfo s)" "\<And>r h. P (GetCorpusBleuScores r h)"
    "\<And>p xs. P (WriteLines p xs)" "P (OpenSession InferSession)" "P (CloseSession InferSession)"
    "\<And>a b. P (Infer InferSession a b)" "P (OpenSession GenerateSession)"
    "\<And>a b. P (GenerateNovelSentences GenerateSession a b)"
    "P PickleLoad" "P PickleDump" "\<And>a b. P (RandInt a b)"
    "\<And>p v. P (GetTextSequences p v)" "\<And>p. P (GetLabels p)" "\<And>v. P (RandomUniform v)"
    "P AddWordVectorsToEmbeddings" "P BuildModel" "P (OpenSession TrainSession)"
    "\<And>a b. P (Train TrainSession a b)" "P (CloseSession TrainSession)"
  shows "list_all P (fst (work env args))"
  unfolding work_def
  by (intro list_all_run_bind list_all_run list_all_if get_data_events get_word_embeddings_events
        train_block_events sample_block_events assms
      | simp only: split_beta)+

lemma parse_args_events:
  assumes "P ArgparseError" "P ArgparseHelp"
  shows "list_all P (fst (parse_args argv))"
  using assms by (simp add: parse_args_def run_simps split: option.splits scan_stop.splits)

lemma main_events:
  assumes "\<And>s. P (LogDebug s)" "\<And>s. P (LogInfo s)" "\<And>r h. P (GetCorpusBleuScores r h)"
    "\<And>p xs. P (WriteLines p xs)" "P (OpenSession InferSession)" "P (CloseSession InferSession)"
    "\<And>a b. P (Infer InferSession a b)" "P (OpenSession GenerateSession)"
    "\<And>a b. P (GenerateNovelSentences GenerateSession a b)"
    "P PickleLoad" "P PickleDump" "\<And>a b. P (RandInt a b)"
    "\<And>p v. P (GetTextSequences p v)" "\<And>p. P (GetLabels p)" "\<And>v. P (RandomUniform v)"
    "P AddWordVectorsToEmbeddings" "P BuildModel" "P (OpenSession TrainSession)"
    "\<And>a b. P (Train TrainSession a b)" "P (CloseSession TrainSession)"
    "P ArgparseError" "P ArgparseHelp" "\<And>s. P (SetupLogger s)"
  shows "list_all P (fst (main env argv))"
  unfolding main_def
  by (intro list_all_run_bind list_all_run list_all_if parse_args_events work_events assms)

lemma work_no_sampling_events:
  assumes "\<not> arg_infer_sequences args" "\<not> arg_generate_novel_text args"
    "\<And>s. P (LogDebug s)" "\<And>s. P (LogInfo s)"
    "\<And>p v. P (GetTextSequences p v)" "\<And>p. P (GetLabels p)" "\<And>v. P (RandomUniform v)"
    "P AddWordVectorsToEmbeddings" "P BuildModel" "P (OpenSession TrainSession)"
    "\<And>a b. P (Train TrainSession a b)" "P (CloseSession TrainSession)"
  shows "list_all P (fst (work env args))"
  unfolding work_def
  apply (simp only: assms(1,2) simp_thms if_False)
  apply (intro list_all_run_bind list_all_run list_all_if get_data_events get_word_embeddings_events
        train_block_events assms(3-)
      | simp only: split_beta)+
  done

lemma parse_args_cases:
  "parse_args argv = ([ArgparseHelp], Inl (SystemExit 0)) \<or>
   parse_args argv = ([ArgparseError], Inl (SystemExit 2)) \<or>
   (\<exists>a. parse_args argv = ret a \<and>
      arg_train_model a = opt_train_model argv \<and>
      arg_infer_sequences a = opt_infer_sequences argv \<and>
      arg_generate_novel_text a = opt_generate_novel_text argv \<and>
      arg_use_pretrained_embeddings a = opt_use_pretrained_embeddings argv)"
  by (simp add: parse_args_def call_def ret_def split: option.splits scan_stop.splits)

lemma main_no_sampling_events:
  assumes "\<not> opt_infer_sequences argv" "\<not> opt_generate_novel_text argv"
    "\<And>s. P (LogDebug s)" "\<And>s. P (LogInfo s)"
    "\<And>p v. P (GetTextSequences p v)" "\<And>p. P (GetLabels p)" "\<And>v. P (RandomUniform v)"
    "P AddWordVectorsToEmbeddings" "P BuildModel" "P (OpenSession TrainSession)"
    "\<And>a b. P (Train TrainSession a b)" "P (CloseSession TrainSession)"
    "P ArgparseError" "P ArgparseHelp" "\<And>s. P (SetupLogger s)"
  shows "list_all P (fst (main env argv))"
proof -
  from parse_args_cases[of argv] consider
    (asked_help) "parse_args argv = ([ArgparseHelp], Inl (SystemExit 0))"
    | (usage_error) "parse_args argv = ([ArgparseError], Inl (SystemExit 2))"
    | (parsed) a where "parse_args argv = ret a"
        "arg_infer_sequences a = opt_infer_sequences argv"
        "arg_generate_novel_text a = opt_generate_novel_text argv"
    by blast
  then show ?thesis
  proof cases
    case asked_help
    then show ?thesis
      using assms(14) by (simp add: main_def run_bind_def)
  next
    case usage_error
    then show ?thesis
      using assms(13) by (simp add: main_def run_bind_def)
  next
    case parsed
    then have f: "\<not> arg_infer_sequences a" "\<not> arg_generate_novel_text a"
      using assms(1,2) by simp_all
    have w: "list_all P (fst (work env a))"
      by (rule work_no_sampling_events[OF f]) (rule assms)+
    show ?thesis
      unfolding main_def parsed(1) run_bind_ret
      by (intro list_all_run_bind list_all_run list_all_if w assms)
  qed
qed

section \<open>Sessions, the command line and the exit status\<close>

text \<open>
  No run of \<^verbatim>\<open>main\<close> closes the session it opens for generation: line 211 opens it and no
  \<^verbatim>\<open>sess.close()\<close> follows, unlike lines 173-175 and 193-196.
\<close>

lemma generate_session_never_closed:
  "CloseSession GenerateSession \<notin> set (fst (main env argv))"
proof -
  have "list_all (\<lambda>e. e \<noteq> CloseSession GenerateSession) (fst (main env argv))"
    by (rule main_events) simp_all
  then show ?thesis
    by (auto simp: list_all_iff)
qed

text \<open>
  Claim C3 (every session that is opened is closed before the run exits) at the run of
  the example with only \<^verbatim>\<open>--generate-novel-text\<close>: the run returns and leaves the session of
  generation open. The run that trains and infers closes both of its sessions.
\<close>

theorem generate_session_left_open:
  "snd (main example_env (example_argv\<lparr>opt_generate_novel_text := True\<rparr>)) = Inr () \<and>
   unclosed_sessions (fst (main example_env (example_argv\<lparr>opt_generate_novel_text := True\<rparr>))) =
     [GenerateSession] \<and>
   unclosed_sessions (fst (main example_env (example_argv\<lparr>opt_train_model := True,
      opt_infer_sequences := True\<rparr>))) = []"
  by code_simp

lemma parse_args_missing:
  assumes "opt_text_file_path argv = None \<or> opt_label_file_path argv = None"
  shows "parse_args argv =
           (if opt_scan_stop argv = Some HelpRequested
            then ([ArgparseHelp], Inl (SystemExit 0))
            else ([ArgparseError], Inl (SystemExit 2)))"
  using assms
  by (auto simp: parse_args_def call_def split: option.splits scan_stop.splits)

lemma parse_args_accepts:
  "(\<exists>t a. parse_args argv = (t, Inr a)) \<longleftrightarrow>
     (opt_scan_stop argv = None \<and> opt_text_file_path argv \<noteq> None \<and>
      opt_label_file_path argv \<noteq> None \<and> opt_unrecognized argv = [])"
  by (auto simp: parse_args_def call_def ret_def split: option.splits scan_stop.splits)

lemma parse_args_accepted:
  assumes "parse_args argv = (t, Inr a)"
  shows "t = [] \<and>
         arg_train_model a = opt_train_model argv \<and>
         arg_infer_sequences a = opt_infer_sequences argv \<and>
         arg_generate_novel_text a = opt_generate_novel_text argv \<and>
         arg_logging_level a =
           (case opt_logging_level argv of None \<Rightarrow> ''INFO'' | Some l \<Rightarrow> l)"
  using assms
  by (auto simp: parse_args_def call_def ret_def split: option.splits scan_stop.splits if_splits)

text \<open>
  Claim C6. When the text file path or the label file path is missing from the command
  line, the run is the exit of the argument parser alone, with no data read, no model
  built and no other event: the usage error with exit status 2, or, when \<^verbatim>\<open>-h\<close> has ended
  the scan of the arguments first, the help text with exit status 0.
\<close>

theorem missing_path_fails_fast:
  assumes "opt_text_file_path argv = None \<or> opt_label_file_path argv = None"
  shows "main env argv =
           (if opt_scan_stop argv = Some HelpRequested
            then ([ArgparseHelp], Inl (SystemExit 0))
            else ([ArgparseError], Inl (SystemExit 2)))"
  by (simp add: main_def parse_args_missing[OF assms] run_bind_def)

theorem missing_path_fails_fast_witness:
  "(opt_text_file_path (example_argv\<lparr>opt_label_file_path := None, opt_train_model := True\<rparr>) = None \<or>
    opt_label_file_path (example_argv\<lparr>opt_label_file_path := None, opt_train_model := True\<rparr>) = None) \<and>
   main example_env (example_argv\<lparr>opt_label_file_path := None, opt_train_model := True\<rparr>) =
     ([ArgparseError], Inl (SystemExit 2))"
proof -
  have h: "opt_text_file_path (example_argv\<lparr>opt_label_file_path := None, opt_train_model := True\<rparr>) = None \<or>
    opt_label_file_path (example_argv\<lparr>opt_label_file_path := None, opt_train_model := True\<rparr>) = None"
    by simp
  have n: "opt_scan_stop (example_argv\<lparr>opt_label_file_path := None, opt_train_model := True\<rparr>) \<noteq>
             Some HelpRequested"
    by (simp add: example_argv_def)
  from missing_path_fails_fast[OF h, of example_env] h n show ?thesis
    by simp
qed

text \<open>
  Claim C4, as amended: when the parser accepts the command line (the scan of the
  arguments does not end early at \<^verbatim>\<open>-h\<close> or at a usage error, both file paths are given and
  no argument is unrecognised) and none of the three flags is set, the run sets up the
  logger, logs the no-op message and exits with status 0; no data is read and no model is
  built.
\<close>

theorem nothing_to_do_exits:
  "((\<exists>t a. parse_args argv = (t, Inr a)) \<longleftrightarrow>
      (opt_scan_stop argv = None \<and> opt_text_file_path argv \<noteq> None \<and>
       opt_label_file_path argv \<noteq> None \<and> opt_unrecognized argv = [])) \<and>
   (\<forall>t a. parse_args argv = (t, Inr a) \<and> \<not> opt_train_model argv \<and>
        \<not> opt_infer_sequences argv \<and> \<not> opt_generate_novel_text argv \<longrightarrow>
      main env argv =
        ([SetupLogger (case opt_logging_level argv of None \<Rightarrow> ''INFO'' | Some l \<Rightarrow> l),
          LogInfo ''Nothing to do. Exiting ...''],
         Inl (SystemExit 0)))"
proof -
  have m: "main env argv =
        ([SetupLogger (case opt_logging_level argv of None \<Rightarrow> ''INFO'' | Some l \<Rightarrow> l),
          LogInfo ''Nothing to do. Exiting ...''],
         Inl (SystemExit 0))"
    if p: "parse_args argv = (t, Inr a)" and f: "\<not> opt_train_model argv"
      "\<not> opt_infer_sequences argv" "\<not> opt_generate_novel_text argv" for t a
  proof -
    note pa = parse_args_accepted[OF p]
    from pa have r: "parse_args argv = ret a"
      using p by (simp add: ret_def)
    show ?thesis
      unfolding main_def r run_bind_ret
      using pa f by (simp add: run_bind_def emit_def pure_def)
  qed
  from parse_args_accepts[of argv] m show ?thesis
    by blast
qed

theorem nothing_to_do_exits_witness:
  "parse_args example_argv =
     ([], Inr \<lparr> arg_dev_mode = False, arg_train_model = False, arg_infer_sequences = False,
               arg_generate_novel_text = False, arg_use_pretrained_embeddings = False,
               arg_training_epochs = 10, arg_vocab_size = 1000,
               arg_text_file_path = ''text.txt'', arg_label_file_path = ''labels.txt'',
               arg_logging_level = ''INFO'' \<rparr>) \<and>
   \<not> opt_train_model example_argv \<and> \<not> opt_infer_sequences example_argv \<and>
   \<not> opt_generate_novel_text example_argv \<and>
   main example_env example_argv =
     ([SetupLogger ''INFO'', LogInfo ''Nothing to do. Exiting ...''], Inl (SystemExit 0))"
proof -
  have p: "parse_args example_argv =
     ([], Inr \<lparr> arg_dev_mode = False, arg_train_model = False, arg_infer_sequences = False,
               arg_generate_novel_text = False, arg_use_pretrained_embeddings = False,
               arg_training_epochs = 10, arg_vocab_size = 1000,
               arg_text_file_path = ''text.txt'', arg_label_file_path = ''labels.txt'',
               arg_logging_level = ''INFO'' \<rparr>)"
    by (simp add: parse_args_def example_argv_def ret_def)
  have h: "\<not> opt_train_model example_argv" "\<not> opt_infer_sequences example_argv"
    "\<not> opt_generate_novel_text example_argv"
    by (simp_all add: example_argv_def)
  have l: "opt_logging_level example_argv = None"
    by (simp add: example_argv_def)
  from nothing_to_do_exits[of example_argv example_env] p h
  have "main example_env example_argv =
        ([SetupLogger (case opt_logging_level example_argv of None \<Rightarrow> ''INFO'' | Some l \<Rightarrow> l),
          LogInfo ''Nothing to do. Exiting ...''],
         Inl (SystemExit 0))"
    by blast
  with p h l show ?thesis
    by simp
qed

text \<open>
  Claim C4 as stated fails for command lines that set none of the three flags: with a
  required path missing, with a value of \<^verbatim>\<open>--vocab-size\<close> that is no integer, or with an
  argument that is no option of the parser, the parser ends the run with status 2; with
  \<^verbatim>\<open>-h\<close> it ends the run with status 0 after the help text. In none of the four runs is
  the no-op message logged.
\<close>

theorem nothing_to_do_counterexample:
  "\<not> opt_train_model example_argv \<and>
   \<not> opt_infer_sequences example_argv \<and>
   \<not> opt_generate_novel_text example_argv \<and>
   main example_env (example_argv\<lparr>opt_text_file_path := None\<rparr>) =
     ([ArgparseError], Inl (SystemExit 2)) \<and>
   main example_env (example_argv\<lparr>opt_scan_stop := Some ScanError\<rparr>) =
     ([ArgparseError], Inl (SystemExit 2)) \<and>
   main example_env (example_argv\<lparr>opt_unrecognized := [''--bogus'']\<rparr>) =
     ([ArgparseError], Inl (SystemExit 2)) \<and>
   main example_env (example_argv\<lparr>opt_scan_stop := Some HelpRequested\<rparr>) =
     ([ArgparseHelp], Inl (SystemExit 0)) \<and>
   snd (main example_env (example_argv\<lparr>opt_text_file_path := None\<rparr>)) \<noteq> Inl (SystemExit 0) \<and>
   LogInfo ''Nothing to do. Exiting ...'' \<notin>
     set (fst (main example_env (example_argv\<lparr>opt_text_file_path := None\<rparr>))) \<and>
   LogInfo ''Nothing to do. Exiting ...'' \<notin>
     set (fst (main example_env (example_argv\<lparr>opt_scan_stop := Some HelpRequested\<rparr>)))"
proof -
  have m1: "main example_env (example_argv\<lparr>opt_text_file_path := None\<rparr>) =
             ([ArgparseError], Inl (SystemExit 2))"
    by (simp add: main_def parse_args_def run_bind_def call_def example_argv_def)
  have m2: "main example_env (example_argv\<lparr>opt_scan_stop := Some ScanError\<rparr>) =
             ([ArgparseError], Inl (SystemExit 2))"
    by (simp add: main_def parse_args_def run_bind_def call_def)
  have m4: "main example_env (example_argv\<lparr>opt_unrecognized := [''--bogus'']\<rparr>) =
             ([ArgparseError], Inl (SystemExit 2))"
    by (simp add: main_def parse_args_def run_bind_def call_def example_argv_def)
  have m3: "main example_env (example_argv\<lparr>opt_scan_stop := Some HelpRequested\<rparr>) =
             ([ArgparseHelp], Inl (SystemExit 0))"
    by (simp add: main_def parse_args_def run_bind_def call_def)
  show ?thesis
    unfolding m1 m2 m3 m4 by (simp add: example_argv_def)
qed

section \<open>BLEU scoring\<close>

lemma bai_True: "bleu_after_inference True t"
  by (induction t) simp_all

lemma bai_mono: "bleu_after_inference False t \<Longrightarrow> bleu_after_inference seen t"
  by (cases seen) (simp_all add: bai_True)

lemma bai_append:
  "bleu_after_inference seen (a @ b) =
     (bleu_after_inference seen a \<and> bleu_after_inference (seen \<or> list_ex is_inference a) b)"
  by (induction a arbitrary: seen) (auto simp: bai_True)

lemma bai_no_bleu: "list_all (\<lambda>e. \<not> is_bleu e) t \<Longrightarrow> bleu_after_inference seen t"
  by (induction t arbitrary: seen) simp_all

lemma bai_run_bind:
  assumes "bleu_after_inference seen (fst m)"
    and "\<And>x. bleu_after_inference (seen \<or> list_ex is_inference (fst m)) (fst (f x))"
  shows "bleu_after_inference seen (fst (run_bind m f))"
  using assms by (simp add: fst_run_bind bai_append split: sum.splits)

lemma bai_if:
  assumes "c \<Longrightarrow> bleu_after_inference seen (fst a)"
    and "\<not> c \<Longrightarrow> bleu_after_inference seen (fst b)"
  shows "bleu_after_inference seen (fst (if c then a else b))"
  using assms by simp

lemma bai_run:
  "bleu_after_inference seen (fst (ret x))"
  "bleu_after_inference seen (fst (pure r))"
  "\<not> is_bleu e \<Longrightarrow> bleu_after_inference seen (fst (emit e))"
  "\<not> is_bleu e \<Longrightarrow> bleu_after_inference seen (fst (call e r))"
  by (simp_all add: run_simps)

lemma bai_infer_block:
  "bleu_after_inference seen (fst (infer_block env off n wi awl m iwi ts))"
  unfolding infer_block_def
  by (intro bai_run_bind bai_run | simp only: split_beta | simp add: run_simps bai_True)+

lemma bai_choose_style_embedding:
  "bleu_after_inference seen (fst (choose_style_embedding env nl d ls))"
  by (rule bai_no_bleu, rule choose_style_embedding_events) simp_all

lemma bai_generate_block:
  "bleu_after_inference seen (fst (generate_block env nl d ls off n wi awl m iwi ts))"
  unfolding generate_block_def
  by (intro bai_run_bind bai_run bai_choose_style_embedding | simp only: split_beta
      | simp add: run_simps bai_True)+

lemma bai_flush:
  "bleu_after_inference seen (fst (flush_ground_truth_sentences env a s f m wi iwi ts))"
  by (rule bai_no_bleu, rule flush_ground_truth_sentences_events) simp_all

lemma bai_sample_block:
  "bleu_after_inference seen (fst (sample_block env do_infer do_generate nl m ls d wi a))"
  unfolding sample_block_def Let_def
  by (intro bai_run_bind bai_run bai_if bai_infer_block bai_generate_block bai_flush) simp_all

lemma bai_work: "bleu_after_inference seen (fst (work env args))"
proof -
  have d: "bleu_after_inference s (fst (get_data env t v l))" for s t v l
    by (rule bai_no_bleu, rule get_data_events) simp_all
  have w: "bleu_after_inference s (fst (get_word_embeddings env vs wi upe tm))" for s vs wi upe tm
    by (rule bai_no_bleu, rule get_word_embeddings_events) simp_all
  have t: "bleu_after_inference s (fst (train_block env ds ep))" for s ds ep
    by (rule bai_no_bleu, rule train_block_events) simp_all
  show ?thesis
    unfolding work_def
    by (intro bai_run_bind bai_run bai_if d w t bai_sample_block | simp only: split_beta
        | simp)+
qed

lemma bai_main: "bleu_after_inference False (fst (main env argv))"
proof -
  have p: "bleu_after_inference s (fst (parse_args argv))" for s
    by (rule bai_no_bleu, rule parse_args_events) simp_all
  show ?thesis
    unfolding main_def
    by (intro bai_run_bind bai_run bai_if p bai_work) simp_all
qed

text \<open>
  Claim C7. In every run of \<^verbatim>\<open>main\<close>, every call of the BLEU scorer comes after a call of
  \<^verbatim>\<open>network.infer\<close> or \<^verbatim>\<open>network.generate_novel_sentences\<close>; a run without
  \<^verbatim>\<open>--infer-sequences\<close> and \<^verbatim>\<open>--generate-novel-text\<close> (so a run that only trains) never calls
  it; and lines 171-176, the training path, never call it. What \<^verbatim>\<open>network.train\<close> does
  inside is outside the sources and is one event here.
\<close>

theorem bleu_only_after_inference:
  "bleu_after_inference False (fst (main env argv)) \<and>
   (\<not> opt_infer_sequences argv \<and> \<not> opt_generate_novel_text argv \<longrightarrow>
      list_all (\<lambda>e. \<not> is_bleu e) (fst (main env argv))) \<and>
   list_all (\<lambda>e. \<not> is_bleu e) (fst (train_block env data_size training_epochs))"
proof -
  have a: "list_all (\<lambda>e. \<not> is_bleu e) (fst (main env argv))"
    if "\<not> opt_infer_sequences argv" "\<not> opt_generate_novel_text argv"
    by (rule main_no_sampling_events[OF that]) simp_all
  have t: "list_all (\<lambda>e. \<not> is_bleu e) (fst (train_block env data_size training_epochs))"
    by (rule train_block_events) simp_all
  from bai_main a t show ?thesis
    by blast
qed

lemma example_train_only:
  "fst (main example_env (example_argv\<lparr>opt_train_model := True\<rparr>)) =
     [SetupLogger ''INFO'', LogInfo ''Reading data ...'', GetTextSequences ''text.txt'' 1000,
      LogDebug ''text_sequence_lengths: {}'', LogDebug ''padded_sequences: {}'',
      GetLabels ''labels.txt'', LogDebug ''one_hot_labels.shape: {}'', RandomUniform 1000,
      LogDebug ''encoder_embedding_matrix: {}'', RandomUniform 1000,
      LogDebug ''decoder_embedding_matrix: {}'', LogInfo ''Building model architecture ...'',
      BuildModel, LogInfo ''Training model ...'', OpenSession TrainSession,
      Train TrainSession 5 10, CloseSession TrainSession, LogInfo ''Training complete!'']"
  by code_simp

theorem bleu_only_after_inference_witness:
  "\<not> opt_infer_sequences (example_argv\<lparr>opt_train_model := True\<rparr>) \<and>
   \<not> opt_generate_novel_text (example_argv\<lparr>opt_train_model := True\<rparr>) \<and>
   list_all (\<lambda>e. \<not> is_bleu e) (fst (main example_env (example_argv\<lparr>opt_train_model := True\<rparr>))) \<and>
   Train TrainSession 5 10 \<in> set (fst (main example_env (example_argv\<lparr>opt_train_model := True\<rparr>))) \<and>
   bleu_after_inference False
     (fst (main example_env (example_argv\<lparr>opt_train_model := True, opt_infer_sequences := True\<rparr>))) \<and>
   list_ex is_bleu
     (fst (main example_env (example_argv\<lparr>opt_train_model := True, opt_infer_sequences := True\<rparr>)))"
proof -
  have h: "\<not> opt_infer_sequences (example_argv\<lparr>opt_train_model := True\<rparr>)"
    "\<not> opt_generate_novel_text (example_argv\<lparr>opt_train_model := True\<rparr>)"
    by (simp_all add: example_argv_def)
  have t: "Train TrainSession 5 10 \<in>
             set (fst (main example_env (example_argv\<lparr>opt_train_model := True\<rparr>)))"
    unfolding example_train_only by simp
  have b: "list_ex is_bleu
     (fst (main example_env (example_argv\<lparr>opt_train_model := True, opt_infer_sequences := True\<rparr>)))"
    by code_simp
  from bleu_only_after_inference[of example_env "example_argv\<lparr>opt_train_model := True\<rparr>"]
    bleu_only_after_inference[of example_env
      "example_argv\<lparr>opt_train_model := True, opt_infer_sequences := True\<rparr>"]
    h t b
  show ?thesis
    by blast
qed

section \<open>Pretrained embeddings\<close>

lemma get_word_embeddings_untrained:
  "get_word_embeddings env vs wi True False = get_word_embeddings env vs wi False False"
  by (simp add: get_word_embeddings_def)

lemma snd_get_word_embeddings_untrained:
  "snd (get_word_embeddings env vs wi upe False) =
     py_bind (np_random_uniform env 0 vs) (\<lambda>enc.
     py_bind (np_random_uniform env 1 vs) (\<lambda>dec. Inr (enc, dec)))"
  by (simp add: get_word_embeddings_def snd_run_bind run_simps py_bind_def split: sum.splits)

lemma fst_get_word_embeddings_untrained:
  "AddWordVectorsToEmbeddings \<notin> set (fst (get_word_embeddings env vs wi upe False))"
proof -
  have "list_all (\<lambda>e. e \<noteq> AddWordVectorsToEmbeddings)
          (fst (get_word_embeddings env vs wi upe False))"
    unfolding get_word_embeddings_def
    apply (simp only: simp_thms if_False)
    apply (intro list_all_run_bind list_all_run)
    apply simp_all
    done
  then show ?thesis
    by (auto simp: list_all_iff)
qed

lemma work_untrained:
  assumes "\<not> arg_train_model a"
  shows "work env (a\<lparr>arg_use_pretrained_embeddings := upe\<rparr>) = work env a"
  using assms
  by (cases upe; cases "arg_use_pretrained_embeddings a")
     (simp_all add: work_def get_word_embeddings_untrained cong: if_cong)

lemma parse_args_pretrained_flag:
  "parse_args (argv\<lparr>opt_use_pretrained_embeddings := upe\<rparr>) =
     (case parse_args argv of
        (t, Inl e) \<Rightarrow> (t, Inl e)
      | (t, Inr a) \<Rightarrow> (t, Inr (a\<lparr>arg_use_pretrained_embeddings := upe\<rparr>)))"
  by (simp add: parse_args_def call_def ret_def split: option.splits scan_stop.splits)

lemma main_untrained:
  assumes "\<not> opt_train_model argv"
  shows "main env (argv\<lparr>opt_use_pretrained_embeddings := upe\<rparr>) = main env argv"
proof -
  from parse_args_cases[of argv] consider
    (asked_help) "parse_args argv = ([ArgparseHelp], Inl (SystemExit 0))"
    | (usage_error) "parse_args argv = ([ArgparseError], Inl (SystemExit 2))"
    | (parsed) a where "parse_args argv = ret a" "arg_train_model a = opt_train_model argv"
    by blast
  then show ?thesis
  proof cases
    case asked_help
    then show ?thesis
      by (simp add: main_def parse_args_pretrained_flag run_bind_def)
  next
    case usage_error
    then show ?thesis
      by (simp add: main_def parse_args_pretrained_flag run_bind_def)
  next
    case parsed
    then have n: "\<not> arg_train_model a"
      using assms by simp
    have p2: "parse_args (argv\<lparr>opt_use_pretrained_embeddings := upe\<rparr>) =
                ret (a\<lparr>arg_use_pretrained_embeddings := upe\<rparr>)"
      by (simp add: parse_args_pretrained_flag parsed(1) ret_def)
    show ?thesis
      unfolding main_def parsed(1) p2 run_bind_ret
      by (simp add: work_untrained[OF n])
  qed
qed

text \<open>
  Claim C8. Without \<^verbatim>\<open>--train-model\<close> the flag \<^verbatim>\<open>--use-pretrained-embeddings\<close> changes nothing
  in the run of \<^verbatim>\<open>main\<close>; \<^verbatim>\<open>get_word_embeddings\<close> then returns the two random matrices it has
  drawn and never calls \<^verbatim>\<open>add_word_vectors_to_embeddings\<close>, which is called only when both
  \<open>train_model\<close> and \<open>use_pretrained_embeddings\<close> are true.
\<close>

theorem pretrained_flag_needs_training:
  "(\<not> opt_train_model argv \<longrightarrow>
      main env (argv\<lparr>opt_use_pretrained_embeddings := upe\<rparr>) = main env argv) \<and>
   get_word_embeddings env vs wi upe False = get_word_embeddings env vs wi False False \<and>
   snd (get_word_embeddings env vs wi upe False) =
     py_bind (np_random_uniform env 0 vs) (\<lambda>enc.
     py_bind (np_random_uniform env 1 vs) (\<lambda>dec. Inr (enc, dec))) \<and>
   AddWordVectorsToEmbeddings \<notin> set (fst (get_word_embeddings env vs wi upe False)) \<and>
   (AddWordVectorsToEmbeddings \<in> set (fst (get_word_embeddings env vs wi upe tm)) \<longrightarrow>
      tm \<and> upe)"
proof -
  have a: "get_word_embeddings env vs wi upe False = get_word_embeddings env vs wi False False"
    by (cases upe) (simp_all add: get_word_embeddings_untrained)
  have b: "tm \<and> upe"
    if m: "AddWordVectorsToEmbeddings \<in> set (fst (get_word_embeddings env vs wi upe tm))"
  proof (rule ccontr)
    assume "\<not> (tm \<and> upe)"
    then have "get_word_embeddings env vs wi upe tm = get_word_embeddings env vs wi upe False"
      by (cases tm; cases upe) (simp_all add: get_word_embeddings_def)
    with m fst_get_word_embeddings_untrained[of env vs wi upe] show False
      by simp
  qed
  from main_untrained a snd_get_word_embeddings_untrained fst_get_word_embeddings_untrained b
  show ?thesis
    by blast
qed

theorem pretrained_flag_needs_training_witness:
  "\<not> opt_train_model (example_argv\<lparr>opt_infer_sequences := True\<rparr>) \<and>
   main example_env (example_argv\<lparr>opt_infer_sequences := True,
       opt_use_pretrained_embeddings := True\<rparr>) =
     main example_env (example_argv\<lparr>opt_infer_sequences := True\<rparr>) \<and>
   get_word_embeddings example_env 1000 [] True False =
     ([RandomUniform 1000, LogDebug ''encoder_embedding_matrix: {}'', RandomUniform 1000,
       LogDebug ''decoder_embedding_matrix: {}''], Inr (0, 1)) \<and>
   get_word_embeddings example_env 1000 [] True True =
     ([RandomUniform 1000, LogDebug ''encoder_embedding_matrix: {}'', RandomUniform 1000,
       LogDebug ''decoder_embedding_matrix: {}'', LogInfo ''Loading pretrained embeddings'',
       AddWordVectorsToEmbeddings], Inr (10, 11))"
proof -
  have h: "\<not> opt_train_model (example_argv\<lparr>opt_infer_sequences := True\<rparr>)"
    by (simp add: example_argv_def)
  have e1: "get_word_embeddings example_env 1000 [] True False =
     ([RandomUniform 1000, LogDebug ''encoder_embedding_matrix: {}'', RandomUniform 1000,
       LogDebug ''decoder_embedding_matrix: {}''], Inr (0, 1))"
    by code_simp
  have e2: "get_word_embeddings example_env 1000 [] True True =
     ([RandomUniform 1000, LogDebug ''encoder_embedding_matrix: {}'', RandomUniform 1000,
       LogDebug ''decoder_embedding_matrix: {}'', LogInfo ''Loading pretrained embeddings'',
       AddWordVectorsToEmbeddings], Inr (10, 11))"
    by code_simp
  from pretrained_flag_needs_training[of "example_argv\<lparr>opt_infer_sequences := True\<rparr>"
      example_env True] h
  have "main example_env (example_argv\<lparr>opt_infer_sequences := True,
       opt_use_pretrained_embeddings := True\<rparr>) =
     main example_env (example_argv\<lparr>opt_infer_sequences := True\<rparr>)"
    by blast
  with h e1 e2 show ?thesis
    by blast
qed

section \<open>The style chosen for generation\<close>

lemma snd_choose_style_embedding:
  "snd (choose_style_embedding env num_labels ds ls) =
     py_bind (py_randint (random_seed env) 1 num_labels) (\<lambda>r.
     py_bind (snd (get_average_label_embeddings env ds ls)) (\<lambda>avg. dict_getitem avg r))"
  by (simp add: choose_style_embedding_def snd_run_bind run_simps py_bind_def split: sum.splits)

lemma py_randint_range:
  assumes "py_randint seed a b = Inr r"
  shows "a \<le> r \<and> r \<le> b"
proof -
  from assms have ab: "a \<le> b" and r: "r = a + seed mod (b - a + 1)"
    by (auto simp: py_randint_def split: if_splits)
  have p: "0 < b - a + 1"
    using ab by simp
  from pos_mod_sign[OF p, of seed] pos_mod_bound[OF p, of seed] r show ?thesis
    by simp
qed

lemma py_randint_onto:
  assumes "a \<le> r" "r \<le> b"
  shows "py_randint (r - a) a b = Inr r"
  using assms by (simp add: py_randint_def)

lemma get_average_label_embeddings_seed:
  "get_average_label_embeddings (env\<lparr>random_seed := seed\<rparr>) ds ls =
   get_average_label_embeddings env ds ls"
  by (simp add: get_average_label_embeddings_def)

lemma chosen_style_embedding:
  assumes "pickle_load env = Inr es"
    and "config_batch_size env \<noteq> 0"
    and "covers ls es (nat (ds - ds mod config_batch_size env))"
  shows "snd (choose_style_embedding (env\<lparr>random_seed := seed\<rparr>) num_labels ds ls) =
           py_bind (py_randint seed 1 num_labels) (\<lambda>r.
             if r \<in> label_of ls ` {i. i < nat (ds - ds mod config_batch_size env)}
             then Inr (numpy_mean env
                    (grouped ls es [0..<nat (ds - ds mod config_batch_size env)] r))
             else Inl KeyError)"
proof -
  from average_label_embeddings_of_prefix[OF assms] obtain avg where
    a: "snd (get_average_label_embeddings env ds ls) = Inr avg"
    and k: "set (dict_keys avg) =
          label_of ls ` {i. i < nat (ds - ds mod config_batch_size env)}"
    and v: "\<And>l. map_of avg l =
              (if l \<in> set (dict_keys avg)
               then Some (numpy_mean env
                      (grouped ls es [0..<nat (ds - ds mod config_batch_size env)] l))
               else None)"
    by blast
  have "dict_getitem avg r =
          (if r \<in> label_of ls ` {i. i < nat (ds - ds mod config_batch_size env)}
           then Inr (numpy_mean env
                  (grouped ls es [0..<nat (ds - ds mod config_batch_size env)] r))
           else Inl KeyError)" for r
    unfolding dict_getitem_def v k[symmetric] by simp
  then show ?thesis
    by (simp add: snd_choose_style_embedding get_average_label_embeddings_seed a py_bind_def)
qed

text \<open>
  Claim C9. The style drawn by \<open>randint(1, num_labels)\<close> ranges over exactly the integers
  from 1 to \<open>num_labels\<close> and is looked up directly in the average embeddings. When labels
  and stored embeddings cover the truncated prefix, the lookup returns the mean of the
  drawn label when that label occurs in the prefix and raises \<open>KeyError\<close> otherwise; so it
  succeeds whatever the draw exactly when \<open>num_labels \<ge> 1\<close> and every label from 1 to
  \<open>num_labels\<close> occurs in the prefix, and each label of that range missing from the prefix
  is a draw that raises \<open>KeyError\<close>.
\<close>

theorem style_choice_lookup:
  assumes "pickle_load env = Inr es"
    and "config_batch_size env \<noteq> 0"
    and "covers ls es (nat (ds - ds mod config_batch_size env))"
  shows "(\<forall>seed r. py_randint seed 1 num_labels = Inr r \<longrightarrow> 1 \<le> r \<and> r \<le> num_labels) \<and>
         (\<forall>r. 1 \<le> r \<and> r \<le> num_labels \<longrightarrow> py_randint (r - 1) 1 num_labels = Inr r) \<and>
         (\<forall>seed. snd (choose_style_embedding (env\<lparr>random_seed := seed\<rparr>) num_labels ds ls) =
            py_bind (py_randint seed 1 num_labels) (\<lambda>r.
              if r \<in> label_of ls ` {i. i < nat (ds - ds mod config_batch_size env)}
              then Inr (numpy_mean env
                     (grouped ls es [0..<nat (ds - ds mod config_batch_size env)] r))
              else Inl KeyError)) \<and>
         ((\<forall>seed. \<exists>v. snd (choose_style_embedding (env\<lparr>random_seed := seed\<rparr>)
                          num_labels ds ls) = Inr v) \<longleftrightarrow>
          (1 \<le> num_labels \<and>
           (\<forall>l. 1 \<le> l \<and> l \<le> num_labels \<longrightarrow>
                l \<in> label_of ls ` {i. i < nat (ds - ds mod config_batch_size env)}))) \<and>
         (\<forall>l. 1 \<le> l \<and> l \<le> num_labels \<and>
              l \<notin> label_of ls ` {i. i < nat (ds - ds mod config_batch_size env)} \<longrightarrow>
              snd (choose_style_embedding (env\<lparr>random_seed := l - 1\<rparr>) num_labels ds ls) =
                Inl KeyError)"
proof -
  let ?L = "label_of ls ` {i. i < nat (ds - ds mod config_batch_size env)}"
  let ?c = "\<lambda>seed. snd (choose_style_embedding (env\<lparr>random_seed := seed\<rparr>) num_labels ds ls)"
  note c = chosen_style_embedding[OF assms, of _ num_labels]
  have r1: "\<forall>seed r. py_randint seed 1 num_labels = Inr r \<longrightarrow> 1 \<le> r \<and> r \<le> num_labels"
    using py_randint_range by blast
  have r2: "\<forall>r. 1 \<le> r \<and> r \<le> num_labels \<longrightarrow> py_randint (r - 1) 1 num_labels = Inr r"
    using py_randint_onto by blast
  have k: "?c (l - 1) = Inl KeyError" if "1 \<le> l" "l \<le> num_labels" "l \<notin> ?L" for l
    using that r2 by (simp add: c py_bind_def)
  have s: "(\<forall>seed. \<exists>v. ?c seed = Inr v) \<longleftrightarrow>
           (1 \<le> num_labels \<and> (\<forall>l. 1 \<le> l \<and> l \<le> num_labels \<longrightarrow> l \<in> ?L))"
  proof
    assume ok: "\<forall>seed. \<exists>v. ?c seed = Inr v"
    have "1 \<le> num_labels"
    proof (rule ccontr)
      assume "\<not> 1 \<le> num_labels"
      then have "?c 0 = Inl ValueError"
        by (simp add: c py_randint_def py_bind_def)
      with ok show False
        by (metis Inl_Inr_False)
    qed
    moreover have "l \<in> ?L" if "1 \<le> l \<and> l \<le> num_labels" for l
    proof (rule ccontr)
      assume "l \<notin> ?L"
      with that have "?c (l - 1) = Inl KeyError"
        using k by blast
      with ok show False
        by (metis Inl_Inr_False)
    qed
    ultimately show "1 \<le> num_labels \<and> (\<forall>l. 1 \<le> l \<and> l \<le> num_labels \<longrightarrow> l \<in> ?L)"
      by blast
  next
    assume p: "1 \<le> num_labels \<and> (\<forall>l. 1 \<le> l \<and> l \<le> num_labels \<longrightarrow> l \<in> ?L)"
    show "\<forall>seed. \<exists>v. ?c seed = Inr v"
    proof
      fix seed
      from p have "\<not> num_labels < 1"
        by simp
      then obtain r where r: "py_randint seed 1 num_labels = Inr r"
        by (simp add: py_randint_def)
      with r1 p have "r \<in> ?L"
        by blast
      with r show "\<exists>v. ?c seed = Inr v"
        by (simp add: c py_bind_def)
    qed
  qed
  from r1 r2 c s k show ?thesis
    by blast
qed

theorem style_choice_lookup_witness:
  "pickle_load example_env_missing_label = Inr [[1, 2], [3, 4], [5, 6], [7, 8]] \<and>
   config_batch_size example_env_missing_label \<noteq> 0 \<and>
   covers [[1], [1], [1], [1], [1]] [[1, 2], [3, 4], [5, 6], [7, 8 :: real]]
     (nat (5 - 5 mod config_batch_size example_env_missing_label)) \<and>
   snd (choose_style_embedding (example_env_missing_label\<lparr>random_seed := 1\<rparr>) 2 5
          [[1], [1], [1], [1], [1]]) = Inl KeyError \<and>
   snd (choose_style_embedding (example_env_missing_label\<lparr>random_seed := 0\<rparr>) 2 5
          [[1], [1], [1], [1], [1]]) = Inr [4, 5] \<and>
   snd (main example_env_missing_label (example_argv\<lparr>opt_generate_novel_text := True\<rparr>)) =
     Inl KeyError \<and>
   \<not> (\<forall>l. 1 \<le> l \<and> l \<le> 2 \<longrightarrow>
          l \<in> label_of [[1], [1], [1], [1], [1]] `
                {i. i < nat (5 - 5 mod config_batch_size example_env_missing_label)})"
proof -
  let ?E = example_env_missing_label
  let ?ls = "[[1], [1], [1], [1], [1 :: int]]"
  let ?es = "[[1, 2], [3, 4], [5, 6], [7, 8 :: real]]"
  have h1: "pickle_load ?E = Inr ?es"
    by (simp add: example_env_missing_label_def example_env_def)
  have h2: "config_batch_size ?E \<noteq> 0"
    by (simp add: example_env_missing_label_def example_env_def)
  have h3: "covers ?ls ?es (nat (5 - 5 mod config_batch_size ?E))"
    by code_simp
  have k: "snd (choose_style_embedding (?E\<lparr>random_seed := 1\<rparr>) 2 5 ?ls) = Inl KeyError"
    by code_simp
  have v: "snd (choose_style_embedding (?E\<lparr>random_seed := 0\<rparr>) 2 5 ?ls) = Inr [4, 5]"
    by code_simp
  have m: "snd (main ?E (example_argv\<lparr>opt_generate_novel_text := True\<rparr>)) = Inl KeyError"
    by code_simp
  from style_choice_lookup[OF h1 h2 h3, of 2] have
    "(\<forall>seed. \<exists>v. snd (choose_style_embedding (?E\<lparr>random_seed := seed\<rparr>) 2 5 ?ls) = Inr v) \<longleftrightarrow>
     ((1::int) \<le> 2 \<and> (\<forall>l. 1 \<le> l \<and> l \<le> 2 \<longrightarrow>
        l \<in> label_of ?ls ` {i. i < nat (5 - 5 mod config_batch_size ?E)}))"
    by blast
  moreover from k have
    "\<not> (\<forall>seed. \<exists>v. snd (choose_style_embedding (?E\<lparr>random_seed := seed\<rparr>) 2 5 ?ls) = Inr v)"
    by (metis Inl_Inr_False)
  ultimately have n: "\<not> (\<forall>l. 1 \<le> l \<and> l \<le> 2 \<longrightarrow>
        l \<in> label_of ?ls ` {i. i < nat (5 - 5 mod config_batch_size ?E)})"
    by simp
  from h1 h2 h3 k v m n show ?thesis
    by blast
qed

section \<open>The sequences after inference\<close>

lemma py_map_Inr:
  assumes "py_map f xs = Inr ys"
  shows "length ys = length xs \<and> (\<forall>k < length xs. f (xs ! k) = Inr (ys ! k))"
  using assms
proof (induction xs arbitrary: ys)
  case Nil
  then show ?case by simp
next
  case (Cons x xs)
  from Cons.prems obtain y ys' where
    y: "f x = Inr y" and r: "py_map f xs = Inr ys'" and e: "ys = y # ys'"
    by (auto simp: py_bind_def split: sum.splits)
  from Cons.IH[OF r] y e show ?case
    by (auto simp: nth_Cons split: nat.splits)
qed

lemma pad_sequences_Inr:
  assumes "pad_sequences seqs maxlen v = Inr rows"
  shows "0 \<le> maxlen \<and> length rows = length seqs \<and> (\<forall>s \<in> set rows. int (length s) = maxlen)"
  using assms by (auto simp: pad_sequences_def split: if_splits)

lemma run_bind_Inr_elim:
  assumes "run_bind m f = (t, Inr y)"
  obtains t1 x t2 where "m = (t1, Inr x)" "f x = (t2, Inr y)" "t = t1 @ t2"
  using assms by (auto simp: run_bind_def split: prod.splits sum.splits)

lemma post_inference_sequences_Inr:
  assumes "post_inference_sequences env wi gs fsl maxlen = Inr seqs"
  shows "length seqs = min (length gs) (length fsl) \<and>
         (\<forall>s \<in> set seqs. int (length s) = maxlen)"
proof -
  from assms obtain v where
    "pad_sequences (trimmed_generated_sequences gs fsl) maxlen v = Inr seqs"
    by (auto simp: post_inference_sequences_def py_bind_def split: sum.splits)
  from pad_sequences_Inr[OF this] show ?thesis
    by (simp add: trimmed_generated_sequences_def)
qed

lemma post_inference_sequences_total:
  assumes "0 \<le> maxlen" and "dict_contains wi (config_eos_token env)"
  shows "\<exists>seqs. post_inference_sequences env wi gs fsl maxlen = Inr seqs"
proof -
  from assms(2) have "map_of wi (config_eos_token env) \<noteq> None"
    by (simp add: dict_contains_def map_of_eq_None_iff)
  then obtain v where "dict_getitem wi (config_eos_token env) = Inr v"
    by (auto simp: dict_getitem_def)
  with assms(1) show ?thesis
    by (simp add: post_inference_sequences_def py_bind_def pad_sequences_def)
qed

lemma execute_post_inference_operations_Inr:
  assumes "execute_post_inference_operations env wi awl gs fsl maxlen iwi suffix mode =
             (t, Inr sentences)"
  shows "\<exists>seqs words.
           post_inference_sequences env wi gs fsl maxlen = Inr seqs \<and>
           py_map (\<lambda>x. generate_words_from_indices env x iwi) seqs = Inr words \<and>
           sentences = map (py_join '' '') words \<and>
           WriteLines (''output/generated_'' @ mode @ ''_'' @ suffix @ ''.txt'') sentences \<in> set t"
proof -
  from assms[unfolded execute_post_inference_operations_def Let_def]
  show ?thesis
    apply (elim run_bind_Inr_elim)
    apply (auto simp: pure_def emit_def call_def ret_def)
    done
qed

text \<open>
  Claim C5. Whatever the generated sequences and their reported lengths, the sequences
  that \<^verbatim>\<open>execute_post_inference_operations\<close> gets from trimming and padding (one for each
  pair of a generated sequence and a length) have exactly \<open>max_sequence_length\<close> elements,
  so never more; they exist whenever \<open>max_sequence_length \<ge> 0\<close> and the end-of-sequence
  token is in the word index; and when the function returns, each sentence it has written
  is the words of one of these sequences, in order, joined by spaces.
\<close>

theorem post_inference_sequence_lengths:
  "(\<forall>seqs. post_inference_sequences env wi gs fsl maxlen = Inr seqs \<longrightarrow>
      length seqs = min (length gs) (length fsl) \<and>
      (\<forall>s \<in> set seqs. int (length s) = maxlen \<and> int (length s) \<le> maxlen)) \<and>
   (0 \<le> maxlen \<and> dict_contains wi (config_eos_token env) \<longrightarrow>
      (\<exists>seqs. post_inference_sequences env wi gs fsl maxlen = Inr seqs)) \<and>
   (\<forall>t sentences.
      execute_post_inference_operations env wi awl gs fsl maxlen iwi suffix mode =
        (t, Inr sentences) \<longrightarrow>
      (\<exists>seqs. post_inference_sequences env wi gs fsl maxlen = Inr seqs \<and>
         length sentences = length seqs \<and>
         (\<forall>k < length sentences.
            int (length (seqs ! k)) = maxlen \<and>
            (\<exists>ws. generate_words_from_indices env (seqs ! k) iwi = Inr ws \<and>
                  sentences ! k = py_join '' '' ws)) \<and>
         WriteLines (''output/generated_'' @ mode @ ''_'' @ suffix @ ''.txt'') sentences
           \<in> set t))"
proof -
  have a: "length seqs = min (length gs) (length fsl) \<and>
      (\<forall>s \<in> set seqs. int (length s) = maxlen \<and> int (length s) \<le> maxlen)"
    if "post_inference_sequences env wi gs fsl maxlen = Inr seqs" for seqs
    using post_inference_sequences_Inr[OF that] by simp
  have b: "\<exists>seqs. post_inference_sequences env wi gs fsl maxlen = Inr seqs"
    if "0 \<le> maxlen \<and> dict_contains wi (config_eos_token env)"
    using that post_inference_sequences_total by blast
  have c: "\<exists>seqs. post_inference_sequences env wi gs fsl maxlen = Inr seqs \<and>
         length sentences = length seqs \<and>
         (\<forall>k < length sentences.
            int (length (seqs ! k)) = maxlen \<and>
            (\<exists>ws. generate_words_from_indices env (seqs ! k) iwi = Inr ws \<and>
                  sentences ! k = py_join '' '' ws)) \<and>
         WriteLines (''output/generated_'' @ mode @ ''_'' @ suffix @ ''.txt'') sentences
           \<in> set t"
    if e: "execute_post_inference_operations env wi awl gs fsl maxlen iwi suffix mode =
        (t, Inr sentences)" for t sentences
  proof -
    from execute_post_inference_operations_Inr[OF e] obtain seqs words where
      s: "post_inference_sequences env wi gs fsl maxlen = Inr seqs"
      and w: "py_map (\<lambda>x. generate_words_from_indices env x iwi) seqs = Inr words"
      and j: "sentences = map (py_join '' '') words"
      and f: "WriteLines (''output/generated_'' @ mode @ ''_'' @ suffix @ ''.txt'') sentences
                \<in> set t"
      by blast
    note wl = py_map_Inr[OF w]
    have l: "length sentences = length seqs"
      using wl j by simp
    have k: "int (length (seqs ! k)) = maxlen \<and>
            (\<exists>ws. generate_words_from_indices env (seqs ! k) iwi = Inr ws \<and>
                  sentences ! k = py_join '' '' ws)"
      if "k < length sentences" for k
    proof -
      from that l have kk: "k < length seqs" by simp
      then have "seqs ! k \<in> set seqs" by simp
      with a[OF s] have "int (length (seqs ! k)) = maxlen" by blast
      moreover from wl kk have "generate_words_from_indices env (seqs ! k) iwi = Inr (words ! k)"
        by blast
      moreover from j kk wl have "sentences ! k = py_join '' '' (words ! k)"
        by simp
      ultimately show ?thesis by blast
    qed
    from s l k f show ?thesis by blast
  qed
  from a b c show ?thesis
    by blast
qed

theorem post_inference_sequence_lengths_witness:
  "post_inference_sequences example_env
     [(''<sos>'', 1), (''<eos>'', 2), (''good'', 3), (''bad'', 4)]
     [[3, 3, 2, 4, 4], [4, 2, 2]] [4, 1] 3 = Inr [[3, 3, 2], [4, 2, 2]] \<and>
   (0::int) \<le> 3 \<and>
   dict_contains [(''<sos>'', 1), (''<eos>'', 2), (''good'', 3), (''bad'', 4 :: int)]
     (config_eos_token example_env) \<and>
   execute_post_inference_operations example_env
     [(''<sos>'', 1), (''<eos>'', 2), (''good'', 3), (''bad'', 4)]
     [[''good'', ''<eos>'', ''<eos>''], [''bad'', ''<eos>'', ''<eos>'']]
     [[3, 3, 2, 4, 4], [4, 2, 2]] [4, 1] 3
     [(1, ''<sos>''), (2, ''<eos>''), (3, ''good''), (4, ''bad'')]
     ''20180101000000'' ''novel_sentences'' =
     ([LogDebug ''Minimum generated sentence length: {}'',
       GetCorpusBleuScores
         [[[''good'', ''<eos>'', ''<eos>'']], [[''bad'', ''<eos>'', ''<eos>'']]]
         [[''good'', ''good'', ''<eos>''], [''bad'', ''<eos>'', ''<eos>'']],
       LogInfo ''bleu_scores: 1.0'',
       WriteLines ''output/generated_novel_sentences_20180101000000.txt''
         [''good good <eos>'', ''bad <eos> <eos>'']],
      Inr [''good good <eos>'', ''bad <eos> <eos>'']) \<and>
   length [[3, 3, 2], [4, 2, 2 :: int]] =
     min (length [[3, 3, 2, 4, 4], [4, 2, 2 :: int]]) (length [4, 1 :: int]) \<and>
   list_all (\<lambda>s. int (length s) \<le> 3) [[3, 3, 2], [4, 2, 2 :: int]]"
proof -
  let ?wi = "[(''<sos>'', 1), (''<eos>'', 2), (''good'', 3), (''bad'', 4 :: int)]"
  let ?gs = "[[3, 3, 2, 4, 4], [4, 2, 2 :: int]]"
  let ?fsl = "[4, 1 :: int]"
  let ?S = "[[3, 3, 2], [4, 2, 2 :: int]]"
  have e1: "post_inference_sequences example_env ?wi ?gs ?fsl 3 = Inr ?S"
    by code_simp
  have e2: "(0::int) \<le> 3" "dict_contains ?wi (config_eos_token example_env)"
    by code_simp+
  have e3: "execute_post_inference_operations example_env ?wi
     [[''good'', ''<eos>'', ''<eos>''], [''bad'', ''<eos>'', ''<eos>'']]
     ?gs ?fsl 3
     [(1, ''<sos>''), (2, ''<eos>''), (3, ''good''), (4, ''bad'')]
     ''20180101000000'' ''novel_sentences'' =
     ([LogDebug ''Minimum generated sentence length: {}'',
       GetCorpusBleuScores
         [[[''good'', ''<eos>'', ''<eos>'']], [[''bad'', ''<eos>'', ''<eos>'']]]
         [[''good'', ''good'', ''<eos>''], [''bad'', ''<eos>'', ''<eos>'']],
       LogInfo ''bleu_scores: 1.0'',
       WriteLines ''output/generated_novel_sentences_20180101000000.txt''
         [''good good <eos>'', ''bad <eos> <eos>'']],
      Inr [''good good <eos>'', ''bad <eos> <eos>''])"
    by code_simp
  from post_inference_sequence_lengths[of example_env ?wi ?gs ?fsl 3] e1
  have l: "length ?S = min (length ?gs) (length ?fsl)"
    and b: "\<forall>s \<in> set ?S. int (length s) \<le> 3"
    by blast+
  from b have "list_all (\<lambda>s. int (length s) \<le> 3) ?S"
    unfolding list_all_iff .
  with e1 e2 e3 l show ?thesis
    by blast
qed

section \<open>Whole batches in the sampling of \<^verbatim>\<open>main\<close>\<close>

lemma list_all_run_bind_snd:
  assumes "list_all P (fst m)" and "\<And>x. snd m = Inr x \<Longrightarrow> list_all P (fst (f x))"
  shows "list_all P (fst (run_bind m f))"
  using assms by (simp add: fst_run_bind split: sum.splits)

lemma run_bind_pure_Inr: "run_bind (pure (Inr x)) f = f x"
  by (simp add: run_bind_def pure_def split: prod.splits)

lemma sample_block_whole_batches:
  assumes "config_batch_size env \<noteq> 0"
  shows "sample_block env di dg nl msl ls d wi acts =
     run_bind (emit (LogDebug ''Sampling range: {}-{}'')) (\<lambda>_.
     run_bind (flush_ground_truth_sentences env acts 0 (d - d mod config_batch_size env) msl wi
                 (inverse_index wi) (timestamp env)) (\<lambda>awl.
     run_bind (if di then infer_block env 0 (d - d mod config_batch_size env) wi awl msl
                            (inverse_index wi) (timestamp env)
               else ret ()) (\<lambda>_.
     if dg then generate_block env nl d ls 0 (d - d mod config_batch_size env) wi awl msl
                  (inverse_index wi) (timestamp env)
     else ret ())))"
  using assms
  by (simp add: sample_block_def samples_size_def py_mod_def py_bind_def run_bind_pure_Inr Let_def)

lemma length_py_slice_prefix:
  assumes "0 \<le> n"
  shows "length (py_slice xs 0 n) = min (nat n) (length xs)"
  using assms by (simp add: py_slice_def slice_index_def Let_def)

lemma flush_ground_truth_sentences_cases:
  "(\<exists>e. flush_ground_truth_sentences env a s f m wi iwi ts = ([], Inl e)) \<or>
   (\<exists>awl. flush_ground_truth_sentences env a s f m wi iwi ts =
        ([WriteLines (''output/actual_sentences_'' @ ts @ ''.txt'') (map (py_join '' '') awl)],
         Inr awl) \<and>
      length awl = length (py_slice a s f))"
proof (cases "dict_getitem wi (config_eos_token env)")
  case (Inl e)
  then show ?thesis
    by (simp add: flush_ground_truth_sentences_def run_bind_def pure_def Let_def)
next
  case v: (Inr v)
  show ?thesis
  proof (cases "pad_sequences (py_slice a s f) m v")
    case (Inl e)
    with v show ?thesis
      by (simp add: flush_ground_truth_sentences_def run_bind_def pure_def Let_def)
  next
    case p: (Inr padded)
    show ?thesis
    proof (cases "py_map (\<lambda>x. generate_words_from_indices env x iwi) padded")
      case (Inl e)
      with v p show ?thesis
        by (simp add: flush_ground_truth_sentences_def run_bind_def pure_def Let_def)
    next
      case (Inr awl)
      from py_map_Inr[OF Inr] pad_sequences_Inr[OF p]
      have "length awl = length (py_slice a s f)"
        by simp
      with v p Inr show ?thesis
        by (simp add: flush_ground_truth_sentences_def run_bind_def pure_def emit_def ret_def
            Let_def)
    qed
  qed
qed

lemma sample_block_range:
  assumes "config_batch_size env \<noteq> 0" and "0 \<le> d - d mod config_batch_size env"
  shows "list_all
           (\<lambda>e. (\<forall>s off n. e = Infer s off n \<or> e = GenerateNovelSentences s off n \<longrightarrow>
                    off = 0 \<and> n = d - d mod config_batch_size env) \<and>
                (\<forall>xs. e = WriteLines (''output/actual_sentences_'' @ timestamp env @ ''.txt'') xs \<longrightarrow>
                    length xs = min (nat (d - d mod config_batch_size env)) (length acts)))
           (fst (sample_block env di dg nl msl ls d wi acts))"
proof -
  let ?used = "d - d mod config_batch_size env"
  let ?P = "\<lambda>e. (\<forall>s off n. e = Infer s off n \<or> e = GenerateNovelSentences s off n \<longrightarrow>
                    off = 0 \<and> n = ?used) \<and>
                (\<forall>xs. e = WriteLines (''output/actual_sentences_'' @ timestamp env @ ''.txt'') xs \<longrightarrow>
                    length xs = min (nat ?used) (length acts))"
  have f: "list_all ?P (fst (flush_ground_truth_sentences env acts 0 ?used msl wi
                               (inverse_index wi) (timestamp env)))"
    using flush_ground_truth_sentences_cases[of env acts 0 ?used msl wi "inverse_index wi"
        "timestamp env"] length_py_slice_prefix[OF assms(2), of acts]
    by auto
  have i: "list_all ?P (fst (infer_block env 0 ?used wi awl msl (inverse_index wi)
                               (timestamp env)))" for awl
    by (rule infer_block_events) simp_all
  have g: "list_all ?P (fst (generate_block env nl d ls 0 ?used wi awl msl (inverse_index wi)
                               (timestamp env)))" for awl
    by (rule generate_block_events) simp_all
  show ?thesis
    unfolding sample_block_whole_batches[OF assms(1)]
    by (intro list_all_run_bind list_all_run list_all_if f i g) simp
qed


lemma get_data_Inr:
  assumes "snd (get_data env t v l) = Inr x"
  shows "\<exists>nl sos eos ps ohl lens ls wi msl acts.
           get_text_sequences env t v = Inr (ps, lens, wi, msl, acts) \<and>
           x = (nl, msl, v, sos, eos, ps, ohl, lens, ls, int (length ps), wi, acts)"
  using assms
  by (auto simp: get_data_def snd_run_bind run_simps py_bind_def Let_def
      split: sum.splits prod.splits)

lemma work_range:
  assumes "0 < config_batch_size env"
    and "get_text_sequences env (arg_text_file_path a) (arg_vocab_size a) =
           Inr (ps, lens, wi, msl, acts)"
  shows "list_all
           (\<lambda>e. (\<forall>s off n. e = Infer s off n \<or> e = GenerateNovelSentences s off n \<longrightarrow>
                    off = 0 \<and> n = int (length ps) - int (length ps) mod config_batch_size env) \<and>
                (\<forall>xs. e = WriteLines (''output/actual_sentences_'' @ timestamp env @ ''.txt'') xs \<longrightarrow>
                    length xs =
                      min (nat (int (length ps) - int (length ps) mod config_batch_size env))
                        (length acts)))
           (fst (work env a))"
  unfolding work_def
proof (rule list_all_run_bind, goal_cases)
  case 1
  show ?case by (rule list_all_run) simp
next
  case 2
  show ?case
  proof (rule list_all_run_bind_snd, goal_cases)
    case 1
    show ?case by (rule get_data_events) simp_all
  next
    case (2 x)
    from get_data_Inr[OF 2] assms(2) obtain nl sos eos ohl ls where
      x: "x = (nl, msl, arg_vocab_size a, sos, eos, ps, ohl, lens, ls, int (length ps), wi, acts)"
      by auto
    have nz: "config_batch_size env \<noteq> 0"
      using assms(1) by simp
    have u: "0 \<le> int (length ps) - int (length ps) mod config_batch_size env"
      using assms(1) by (simp add: zmod_le_nonneg_dividend)
    show ?case
      unfolding x prod.case
      by (intro list_all_run_bind list_all_run list_all_if get_word_embeddings_events
          train_block_events sample_block_range[OF nz u]) simp_all
  qed
qed

lemma parse_args_Inr:
  assumes "snd (parse_args argv) = Inr a"
  shows "parse_args argv = ret a"
proof -
  have "parse_args argv = (fst (parse_args argv), Inr a)"
    using assms by (metis prod.collapse)
  from parse_args_accepted[OF this] this show ?thesis
    by (simp add: ret_def)
qed

lemma main_range:
  assumes "0 < config_batch_size env"
    and "snd (parse_args argv) = Inr a"
    and "get_text_sequences env (arg_text_file_path a) (arg_vocab_size a) =
           Inr (ps, lens, wi, msl, acts)"
  shows "list_all
           (\<lambda>e. (\<forall>s off n. e = Infer s off n \<or> e = GenerateNovelSentences s off n \<longrightarrow>
                    off = 0 \<and> n = int (length ps) - int (length ps) mod config_batch_size env) \<and>
                (\<forall>xs. e = WriteLines (''output/actual_sentences_'' @ timestamp env @ ''.txt'') xs \<longrightarrow>
                    length xs =
                      min (nat (int (length ps) - int (length ps) mod config_batch_size env))
                        (length acts)))
           (fst (main env argv))"
  unfolding main_def parse_args_Inr[OF assms(2)] run_bind_ret
  by (intro list_all_run_bind list_all_run list_all_if work_range[OF assms(1,3)]) simp_all

lemma infer_block_calls:
  "Infer InferSession off n \<in> set (fst (infer_block env off n wi awl m iwi ts))"
  by (simp add: infer_block_def fst_run_bind run_simps)

lemma generate_block_calls:
  assumes "snd (generate_block env nl d ls off n wi awl m iwi ts) = Inr u"
  shows "GenerateNovelSentences GenerateSession off n \<in>
           set (fst (generate_block env nl d ls off n wi awl m iwi ts))"
  using assms
  by (auto simp: generate_block_def fst_run_bind snd_run_bind run_simps py_bind_def
      split: sum.splits)

lemma sample_block_calls:
  assumes "config_batch_size env \<noteq> 0"
    and "snd (sample_block env di dg nl msl ls d wi acts) = Inr u"
  shows "(di \<longrightarrow> Infer InferSession 0 (d - d mod config_batch_size env) \<in>
                  set (fst (sample_block env di dg nl msl ls d wi acts))) \<and>
         (dg \<longrightarrow> GenerateNovelSentences GenerateSession 0 (d - d mod config_batch_size env) \<in>
                  set (fst (sample_block env di dg nl msl ls d wi acts))) \<and>
         (\<exists>xs. WriteLines (''output/actual_sentences_'' @ timestamp env @ ''.txt'') xs \<in>
                  set (fst (sample_block env di dg nl msl ls d wi acts)))"
proof -
  let ?used = "d - d mod config_batch_size env"
  obtain t where st: "sample_block env di dg nl msl ls d wi acts = (t, Inr u)"
    using assms(2) by (metis prod.collapse)
  from st[unfolded sample_block_whole_batches[OF assms(1)]]
  obtain t1 t2 awl t3 t4 where
    f: "flush_ground_truth_sentences env acts 0 ?used msl wi (inverse_index wi) (timestamp env) =
          (t2, Inr awl)"
    and i: "(if di then infer_block env 0 ?used wi awl msl (inverse_index wi) (timestamp env)
             else ret ()) = (t3, Inr ())"
    and g: "(if dg then generate_block env nl d ls 0 ?used wi awl msl (inverse_index wi)
                          (timestamp env)
             else ret ()) = (t4, Inr u)"
    and t: "t = t1 @ t2 @ t3 @ t4"
    by (elim run_bind_Inr_elim) auto
  have 1: "Infer InferSession 0 ?used \<in> set t3" if di
    using that i infer_block_calls[of 0 ?used env wi awl msl "inverse_index wi" "timestamp env"]
    by simp
  have 2: "GenerateNovelSentences GenerateSession 0 ?used \<in> set t4" if dg
    using that g
      generate_block_calls[of env nl d ls 0 ?used wi awl msl "inverse_index wi" "timestamp env" u]
    by simp
  have 3: "\<exists>xs. WriteLines (''output/actual_sentences_'' @ timestamp env @ ''.txt'') xs \<in> set t2"
    using f flush_ground_truth_sentences_cases[of env acts 0 ?used msl wi "inverse_index wi"
        "timestamp env"]
    by auto
  from 1 2 3 show ?thesis
    unfolding st fst_conv t by auto
qed


lemma work_calls:
  assumes "0 < config_batch_size env"
    and "get_text_sequences env (arg_text_file_path a) (arg_vocab_size a) =
           Inr (ps, lens, wi, msl, acts)"
    and "snd (work env a) = Inr u"
  shows "(arg_infer_sequences a \<longrightarrow>
            Infer InferSession 0 (int (length ps) - int (length ps) mod config_batch_size env) \<in>
              set (fst (work env a))) \<and>
         (arg_generate_novel_text a \<longrightarrow>
            GenerateNovelSentences GenerateSession 0
                (int (length ps) - int (length ps) mod config_batch_size env) \<in>
              set (fst (work env a))) \<and>
         (arg_infer_sequences a \<or> arg_generate_novel_text a \<longrightarrow>
            (\<exists>xs. WriteLines (''output/actual_sentences_'' @ timestamp env @ ''.txt'') xs \<in>
              set (fst (work env a))))"
proof -
  have nz: "config_batch_size env \<noteq> 0"
    using assms(1) by simp
  from assms(3) obtain x where
    gd: "snd (get_data env (arg_text_file_path a) (arg_vocab_size a) (arg_label_file_path a)) =
           Inr x"
    by (auto simp: work_def snd_run_bind run_simps py_bind_def split: sum.splits)
  from get_data_Inr[OF gd] assms(2) obtain nl sos eos ohl ls where
    x: "x = (nl, msl, arg_vocab_size a, sos, eos, ps, ohl, lens, ls, int (length ps), wi, acts)"
    by auto
  note gd' = gd[unfolded x]
  have sb: "snd (sample_block env (arg_infer_sequences a) (arg_generate_novel_text a) nl msl ls
                   (int (length ps)) wi acts) = Inr u"
    if "arg_infer_sequences a \<or> arg_generate_novel_text a"
    using assms(3) that
    by (auto simp: work_def gd' snd_run_bind run_simps py_bind_def split: sum.splits if_splits)
  have sub: "set (fst (sample_block env (arg_infer_sequences a) (arg_generate_novel_text a) nl msl
                         ls (int (length ps)) wi acts)) \<subseteq> set (fst (work env a))"
    if "arg_infer_sequences a \<or> arg_generate_novel_text a"
    using assms(3) that
    by (auto simp: work_def gd' fst_run_bind snd_run_bind run_simps py_bind_def
        split: sum.splits if_splits)
  show ?thesis
  proof (cases "arg_infer_sequences a \<or> arg_generate_novel_text a")
    case True
    from sample_block_calls[OF nz sb[OF True]] sub[OF True] show ?thesis
      by blast
  next
    case False
    then show ?thesis by simp
  qed
qed

lemma main_calls:
  assumes "0 < config_batch_size env"
    and "snd (parse_args argv) = Inr a"
    and "get_text_sequences env (arg_text_file_path a) (arg_vocab_size a) =
           Inr (ps, lens, wi, msl, acts)"
    and "snd (main env argv) = Inr u"
  shows "(arg_infer_sequences a \<longrightarrow>
            Infer InferSession 0 (int (length ps) - int (length ps) mod config_batch_size env) \<in>
              set (fst (main env argv))) \<and>
         (arg_generate_novel_text a \<longrightarrow>
            GenerateNovelSentences GenerateSession 0
                (int (length ps) - int (length ps) mod config_batch_size env) \<in>
              set (fst (main env argv))) \<and>
         (arg_infer_sequences a \<or> arg_generate_novel_text a \<longrightarrow>
            (\<exists>xs. WriteLines (''output/actual_sentences_'' @ timestamp env @ ''.txt'') xs \<in>
              set (fst (main env argv))))"
proof -
  note m = main_def[of env argv, unfolded parse_args_Inr[OF assms(2)] run_bind_ret]
  have w: "snd (work env a) = Inr u"
    using assms(4) unfolding m
    by (auto simp: snd_run_bind run_simps py_bind_def split: if_splits)
  have sub: "set (fst (work env a)) \<subseteq> set (fst (main env argv))"
    using assms(4) unfolding m
    by (auto simp: fst_run_bind snd_run_bind run_simps py_bind_def split: if_splits)
  from work_calls[OF assms(1,3) w] sub show ?thesis
    by blast
qed

text \<open>
  Claim C1. For a batch size above zero and a data set of \<open>data_size \<ge> 0\<close> examples,
  \<open>data_size - data_size mod batch_size\<close> examples are used: a multiple of the batch size,
  at most \<open>data_size\<close>, with fewer than one batch dropped and no exception.
  The loop of \<^verbatim>\<open>get_average_label_embeddings\<close> runs over this number of examples, from the
  first one: it succeeds when the labels and the stored embeddings cover them, and then
  it has grouped exactly that many embeddings.
  The sampling of \<^verbatim>\<open>main\<close> (lines 178-218) uses the same number: every call of
  \<^verbatim>\<open>network.infer\<close> and of \<^verbatim>\<open>network.generate_novel_sentences\<close> is given the range of this
  many examples from offset 0, and the ground truth written holds one sentence for each
  of the first that many actual sequences. When the sampling returns, the ground truth
  has been written and the call of each requested mode has been made. The same holds of
  every run of \<^verbatim>\<open>main\<close> on a command line the parser accepts and a text file of
  \<open>data_size\<close> rows.
\<close>

theorem truncation_to_whole_batches:
  assumes "config_batch_size env = batch_size" and "0 < batch_size" and "0 \<le> data_size"
  shows "\<exists>used. samples_size batch_size data_size = Inr used \<and>
           used = data_size - data_size mod batch_size \<and>
           0 \<le> used \<and> used \<le> data_size \<and> batch_size dvd used \<and> data_size - used < batch_size \<and>
           (\<forall>ls (es :: 'f list). label_embedding_map batch_size es data_size ls =
                      label_embedding_loop ls es [0..<nat used] []) \<and>
           (\<forall>ls (es :: 'f list). covers ls es (nat used) \<longrightarrow>
                      (\<exists>m. label_embedding_map batch_size es data_size ls = Inr m)) \<and>
           (\<forall>ls (es :: 'f list) m. label_embedding_map batch_size es data_size ls = Inr m \<longrightarrow>
                      covers ls es (nat used) \<and> int (total_embeddings m) = used) \<and>
           (\<forall>ls. snd (get_average_label_embeddings env data_size ls) =
                   py_bind (pickle_load env) (\<lambda>es.
                   py_bind (label_embedding_loop ls es [0..<nat used] []) (\<lambda>m.
                   average_loop (numpy_mean env) m (dict_keys m) []))) \<and>
           (\<forall>do_infer do_generate num_labels msl ls wi acts.
              (\<forall>s off n.
                 Infer s off n \<in>
                   set (fst (sample_block env do_infer do_generate num_labels msl ls data_size
                               wi acts)) \<or>
                 GenerateNovelSentences s off n \<in>
                   set (fst (sample_block env do_infer do_generate num_labels msl ls data_size
                               wi acts)) \<longrightarrow>
                 off = 0 \<and> n = used) \<and>
              (\<forall>xs. WriteLines (''output/actual_sentences_'' @ timestamp env @ ''.txt'') xs \<in>
                      set (fst (sample_block env do_infer do_generate num_labels msl ls data_size
                                  wi acts)) \<longrightarrow>
                    length xs = min (nat used) (length acts)) \<and>
              (snd (sample_block env do_infer do_generate num_labels msl ls data_size wi acts) =
                 Inr () \<longrightarrow>
                 (do_infer \<longrightarrow>
                    Infer InferSession 0 used \<in>
                      set (fst (sample_block env do_infer do_generate num_labels msl ls data_size
                                  wi acts))) \<and>
                 (do_generate \<longrightarrow>
                    GenerateNovelSentences GenerateSession 0 used \<in>
                      set (fst (sample_block env do_infer do_generate num_labels msl ls data_size
                                  wi acts))) \<and>
                 (\<exists>xs. WriteLines (''output/actual_sentences_'' @ timestamp env @ ''.txt'') xs \<in>
                      set (fst (sample_block env do_infer do_generate num_labels msl ls data_size
                                  wi acts))))) \<and>
           (\<forall>argv a padded lens wi msl acts.
              snd (parse_args argv) = Inr a \<and>
              get_text_sequences env (arg_text_file_path a) (arg_vocab_size a) =
                Inr (padded, lens, wi, msl, acts) \<and>
              int (length padded) = data_size \<longrightarrow>
              (\<forall>s off n.
                 Infer s off n \<in> set (fst (main env argv)) \<or>
                 GenerateNovelSentences s off n \<in> set (fst (main env argv)) \<longrightarrow>
                 off = 0 \<and> n = used) \<and>
              (\<forall>xs. WriteLines (''output/actual_sentences_'' @ timestamp env @ ''.txt'') xs \<in>
                      set (fst (main env argv)) \<longrightarrow>
                    length xs = min (nat used) (length acts)) \<and>
              (snd (main env argv) = Inr () \<longrightarrow>
                 (arg_infer_sequences a \<longrightarrow>
                    Infer InferSession 0 used \<in> set (fst (main env argv))) \<and>
                 (arg_generate_novel_text a \<longrightarrow>
                    GenerateNovelSentences GenerateSession 0 used \<in> set (fst (main env argv))) \<and>
                 (arg_infer_sequences a \<or> arg_generate_novel_text a \<longrightarrow>
                    (\<exists>xs. WriteLines (''output/actual_sentences_'' @ timestamp env @ ''.txt'') xs \<in>
                      set (fst (main env argv))))))"
proof -
  let ?used = "data_size - data_size mod batch_size"
  have nz: "batch_size \<noteq> 0" using assms by simp
  have cnz: "config_batch_size env \<noteq> 0" and cpos: "0 < config_batch_size env"
    using assms by simp_all
  have s: "samples_size batch_size data_size = Inr ?used"
    using nz by (simp add: samples_size_def py_bind_def py_mod_def)
  have m0: "0 \<le> data_size mod batch_size" "data_size mod batch_size < batch_size"
    using assms by simp_all
  have m1: "data_size mod batch_size \<le> data_size"
    using assms by (simp add: zmod_le_nonneg_dividend)
  have b: "0 \<le> ?used" "?used \<le> data_size" "data_size - ?used < batch_size"
    using m0 m1 by simp_all
  have d: "batch_size dvd ?used"
    by (simp add: minus_mod_eq_mult_div)
  have e: "label_embedding_map batch_size es data_size ls =
           label_embedding_loop ls es [0..<nat ?used] []" for ls and es :: "'g list"
    by (rule label_embedding_map_eq[OF nz])
  have t: "\<exists>m. label_embedding_map batch_size es data_size ls = Inr m"
    if "covers ls es (nat ?used)" for ls and es :: "'f list"
    using that label_embedding_loop_succeeds[of "[0..<nat ?used]" ls es "[]"]
    unfolding e covers_iff by blast
  have r: "covers ls es (nat ?used) \<and> int (total_embeddings m) = ?used"
    if "label_embedding_map batch_size es data_size ls = Inr m" for ls m and es :: "'f list"
  proof -
    from that have l: "label_embedding_loop ls es [0..<nat ?used] [] = Inr m"
      unfolding e .
    from label_embedding_loop_Inr[OF l] b(1) show ?thesis
      unfolding covers_iff by (simp add: total_embeddings_def)
  qed
  have g: "snd (get_average_label_embeddings env data_size ls) =
             py_bind (pickle_load env) (\<lambda>es.
             py_bind (label_embedding_loop ls es [0..<nat ?used] []) (\<lambda>m.
             average_loop (numpy_mean env) m (dict_keys m) []))" for ls
    unfolding snd_get_average_label_embeddings assms(1) e ..
  have u0: "0 \<le> data_size - data_size mod config_batch_size env"
    using b(1) assms(1) by simp
  have sb1: "off = 0 \<and> n = ?used"
    if "Infer s off n \<in> set (fst (sample_block env di dg nl msl ls data_size wi acts)) \<or>
        GenerateNovelSentences s off n \<in>
          set (fst (sample_block env di dg nl msl ls data_size wi acts))"
    for di dg nl msl ls wi acts s off n
    using sample_block_range[OF cnz u0, of acts di dg nl msl ls wi] that
    unfolding assms(1) list_all_iff by blast
  have sb2: "length xs = min (nat ?used) (length acts)"
    if "WriteLines (''output/actual_sentences_'' @ timestamp env @ ''.txt'') xs \<in>
          set (fst (sample_block env di dg nl msl ls data_size wi acts))"
    for di dg nl msl ls wi acts xs
    using sample_block_range[OF cnz u0, of acts di dg nl msl ls wi] that
    unfolding assms(1) list_all_iff by blast
  have sb3: "(di \<longrightarrow> Infer InferSession 0 ?used \<in>
                  set (fst (sample_block env di dg nl msl ls data_size wi acts))) \<and>
         (dg \<longrightarrow> GenerateNovelSentences GenerateSession 0 ?used \<in>
                  set (fst (sample_block env di dg nl msl ls data_size wi acts))) \<and>
         (\<exists>xs. WriteLines (''output/actual_sentences_'' @ timestamp env @ ''.txt'') xs \<in>
                  set (fst (sample_block env di dg nl msl ls data_size wi acts)))"
    if "snd (sample_block env di dg nl msl ls data_size wi acts) = Inr ()"
    for di dg nl msl ls wi acts
    using sample_block_calls[OF cnz that] unfolding assms(1) .
  have mn: "(\<forall>s off n.
                 Infer s off n \<in> set (fst (main env argv)) \<or>
                 GenerateNovelSentences s off n \<in> set (fst (main env argv)) \<longrightarrow>
                 off = 0 \<and> n = ?used) \<and>
              (\<forall>xs. WriteLines (''output/actual_sentences_'' @ timestamp env @ ''.txt'') xs \<in>
                      set (fst (main env argv)) \<longrightarrow>
                    length xs = min (nat ?used) (length acts)) \<and>
              (snd (main env argv) = Inr () \<longrightarrow>
                 (arg_infer_sequences a \<longrightarrow>
                    Infer InferSession 0 ?used \<in> set (fst (main env argv))) \<and>
                 (arg_generate_novel_text a \<longrightarrow>
                    GenerateNovelSentences GenerateSession 0 ?used \<in> set (fst (main env argv))) \<and>
                 (arg_infer_sequences a \<or> arg_generate_novel_text a \<longrightarrow>
                    (\<exists>xs. WriteLines (''output/actual_sentences_'' @ timestamp env @ ''.txt'') xs \<in>
                      set (fst (main env argv)))))"
    if h: "snd (parse_args argv) = Inr a \<and>
        get_text_sequences env (arg_text_file_path a) (arg_vocab_size a) =
          Inr (padded, lens, wi, msl, acts) \<and>
        int (length padded) = data_size"
    for argv a padded lens wi msl acts
  proof -
    from h have pa: "snd (parse_args argv) = Inr a"
      and gt: "get_text_sequences env (arg_text_file_path a) (arg_vocab_size a) =
                 Inr (padded, lens, wi, msl, acts)"
      and n: "int (length padded) = data_size"
      by simp_all
    note rg = main_range[OF cpos pa gt, unfolded n assms(1) list_all_iff]
    have 1: "\<forall>s off n.
                 Infer s off n \<in> set (fst (main env argv)) \<or>
                 GenerateNovelSentences s off n \<in> set (fst (main env argv)) \<longrightarrow>
                 off = 0 \<and> n = ?used"
      using rg by blast
    have 2: "\<forall>xs. WriteLines (''output/actual_sentences_'' @ timestamp env @ ''.txt'') xs \<in>
                      set (fst (main env argv)) \<longrightarrow>
                    length xs = min (nat ?used) (length acts)"
      using rg by blast
    have 3: "(arg_infer_sequences a \<longrightarrow>
                    Infer InferSession 0 ?used \<in> set (fst (main env argv))) \<and>
                 (arg_generate_novel_text a \<longrightarrow>
                    GenerateNovelSentences GenerateSession 0 ?used \<in> set (fst (main env argv))) \<and>
                 (arg_infer_sequences a \<or> arg_generate_novel_text a \<longrightarrow>
                    (\<exists>xs. WriteLines (''output/actual_sentences_'' @ timestamp env @ ''.txt'') xs \<in>
                      set (fst (main env argv))))"
      if "snd (main env argv) = Inr ()"
      using main_calls[OF cpos pa gt that] unfolding n assms(1) .
    from 3 have 4: "snd (main env argv) = Inr () \<longrightarrow>
                 (arg_infer_sequences a \<longrightarrow>
                    Infer InferSession 0 ?used \<in> set (fst (main env argv))) \<and>
                 (arg_generate_novel_text a \<longrightarrow>
                    GenerateNovelSentences GenerateSession 0 ?used \<in> set (fst (main env argv))) \<and>
                 (arg_infer_sequences a \<or> arg_generate_novel_text a \<longrightarrow>
                    (\<exists>xs. WriteLines (''output/actual_sentences_'' @ timestamp env @ ''.txt'') xs \<in>
                      set (fst (main env argv))))"
      by (rule impI)
    show ?thesis
      by (intro conjI) (rule 1 2 4)+
  qed
  show ?thesis
  proof (intro exI[of _ ?used] conjI)
    show "samples_size batch_size data_size = Inr ?used" by (rule s)
    show "?used = data_size - data_size mod batch_size" by (rule refl)
    show "0 \<le> ?used" by (rule b)
    show "?used \<le> data_size" by (rule b)
    show "batch_size dvd ?used" by (rule d)
    show "data_size - ?used < batch_size" by (rule b)
    show "\<forall>ls (es :: 'f list). label_embedding_map batch_size es data_size ls =
                      label_embedding_loop ls es [0..<nat ?used] []"
      using e by blast
    show "\<forall>ls (es :: 'f list). covers ls es (nat ?used) \<longrightarrow>
                      (\<exists>m. label_embedding_map batch_size es data_size ls = Inr m)"
      using t by blast
    show "\<forall>ls (es :: 'f list) m. label_embedding_map batch_size es data_size ls = Inr m \<longrightarrow>
                      covers ls es (nat ?used) \<and> int (total_embeddings m) = ?used"
      using r by blast
    show "\<forall>ls. snd (get_average_label_embeddings env data_size ls) =
                   py_bind (pickle_load env) (\<lambda>es.
                   py_bind (label_embedding_loop ls es [0..<nat ?used] []) (\<lambda>m.
                   average_loop (numpy_mean env) m (dict_keys m) []))"
      using g by blast
  next
    show "\<forall>do_infer do_generate num_labels msl ls wi acts.
              (\<forall>s off n.
                 Infer s off n \<in>
                   set (fst (sample_block env do_infer do_generate num_labels msl ls data_size
                               wi acts)) \<or>
                 GenerateNovelSentences s off n \<in>
                   set (fst (sample_block env do_infer do_generate num_labels msl ls data_size
                               wi acts)) \<longrightarrow>
                 off = 0 \<and> n = ?used) \<and>
              (\<forall>xs. WriteLines (''output/actual_sentences_'' @ timestamp env @ ''.txt'') xs \<in>
                      set (fst (sample_block env do_infer do_generate num_labels msl ls data_size
                                  wi acts)) \<longrightarrow>
                    length xs = min (nat ?used) (length acts)) \<and>
              (snd (sample_block env do_infer do_generate num_labels msl ls data_size wi acts) =
                 Inr () \<longrightarrow>
                 (do_infer \<longrightarrow>
                    Infer InferSession 0 ?used \<in>
                      set (fst (sample_block env do_infer do_generate num_labels msl ls data_size
                                  wi acts))) \<and>
                 (do_generate \<longrightarrow>
                    GenerateNovelSentences GenerateSession 0 ?used \<in>
                      set (fst (sample_block env do_infer do_generate num_labels msl ls data_size
                                  wi acts))) \<and>
                 (\<exists>xs. WriteLines (''output/actual_sentences_'' @ timestamp env @ ''.txt'') xs \<in>
                      set (fst (sample_block env do_infer do_generate num_labels msl ls data_size
                                  wi acts))))"
      by (intro allI conjI impI sb1 sb2; (rule sb3[THEN conjunct1, rule_format]
            sb3[THEN conjunct2, THEN conjunct1, rule_format]
            sb3[THEN conjunct2, THEN conjunct2])?; assumption)
  next
    show "\<forall>argv a padded lens wi msl acts.
              snd (parse_args argv) = Inr a \<and>
              get_text_sequences env (arg_text_file_path a) (arg_vocab_size a) =
                Inr (padded, lens, wi, msl, acts) \<and>
              int (length padded) = data_size \<longrightarrow>
              (\<forall>s off n.
                 Infer s off n \<in> set (fst (main env argv)) \<or>
                 GenerateNovelSentences s off n \<in> set (fst (main env argv)) \<longrightarrow>
                 off = 0 \<and> n = ?used) \<and>
              (\<forall>xs. WriteLines (''output/actual_sentences_'' @ timestamp env @ ''.txt'') xs \<in>
                      set (fst (main env argv)) \<longrightarrow>
                    length xs = min (nat ?used) (length acts)) \<and>
              (snd (main env argv) = Inr () \<longrightarrow>
                 (arg_infer_sequences a \<longrightarrow>
                    Infer InferSession 0 ?used \<in> set (fst (main env argv))) \<and>
                 (arg_generate_novel_text a \<longrightarrow>
                    GenerateNovelSentences GenerateSession 0 ?used \<in> set (fst (main env argv))) \<and>
                 (arg_infer_sequences a \<or> arg_generate_novel_text a \<longrightarrow>
                    (\<exists>xs. WriteLines (''output/actual_sentences_'' @ timestamp env @ ''.txt'') xs \<in>
                      set (fst (main env argv)))))"
      using mn by blast
  qed
qed

theorem truncation_to_whole_batches_witness:
  "config_batch_size example_env_ten = 4 \<and> (0::int) < 4 \<and> (0::int) \<le> 10 \<and>
   samples_size 4 10 = Inr 8 \<and> (10::int) - 8 = 2 \<and>
   (\<exists>m. label_embedding_map 4 [10, 11, 12, 13, 14, 15, 16, 17 :: nat] 10
          [[1], [2], [1], [2], [1], [2], [1], [2], [1], [2]] = Inr m \<and>
        total_embeddings m = 8) \<and>
   snd (main example_env_ten
          (example_argv\<lparr>opt_infer_sequences := True, opt_generate_novel_text := True\<rparr>)) = Inr () \<and>
   Infer InferSession 0 8 \<in>
     set (fst (main example_env_ten
                 (example_argv\<lparr>opt_infer_sequences := True, opt_generate_novel_text := True\<rparr>))) \<and>
   GenerateNovelSentences GenerateSession 0 8 \<in>
     set (fst (main example_env_ten
                 (example_argv\<lparr>opt_infer_sequences := True, opt_generate_novel_text := True\<rparr>))) \<and>
   filter is_inference
     (fst (main example_env_ten
             (example_argv\<lparr>opt_infer_sequences := True, opt_generate_novel_text := True\<rparr>))) =
     [Infer InferSession 0 8, GenerateNovelSentences GenerateSession 0 8] \<and>
   WriteLines ''output/actual_sentences_20180101000000.txt''
       [''good <eos> <eos>'', ''bad <eos> <eos>'', ''good <eos> <eos>'', ''bad <eos> <eos>'',
        ''good <eos> <eos>'', ''bad <eos> <eos>'', ''good <eos> <eos>'', ''bad <eos> <eos>''] \<in>
     set (fst (main example_env_ten
                 (example_argv\<lparr>opt_infer_sequences := True, opt_generate_novel_text := True\<rparr>)))"
proof -
  let ?es = "[10, 11, 12, 13, 14, 15, 16, 17 :: nat]"
  let ?ls = "[[1], [2], [1], [2], [1], [2], [1], [2], [1], [2 :: int]]"
  let ?argv = "example_argv\<lparr>opt_infer_sequences := True, opt_generate_novel_text := True\<rparr>"
  let ?a = "\<lparr> arg_dev_mode = False, arg_train_model = False, arg_infer_sequences = True,
              arg_generate_novel_text = True, arg_use_pretrained_embeddings = False,
              arg_training_epochs = 10, arg_vocab_size = 1000,
              arg_text_file_path = ''text.txt'', arg_label_file_path = ''labels.txt'',
              arg_logging_level = ''INFO'' \<rparr>"
  let ?ps = "[[3, 2, 2], [4, 2, 2], [3, 2, 2], [4, 2, 2], [3, 2, 2],
              [4, 2, 2], [3, 2, 2], [4, 2, 2], [3, 2, 2], [4, 2, 2 :: int]]"
  let ?lens = "[1, 1, 1, 1, 1, 1, 1, 1, 1, 1 :: int]"
  let ?wi = "[(''<sos>'', 1), (''<eos>'', 2), (''good'', 3), (''bad'', 4 :: int)]"
  let ?acts = "[[3], [4], [3], [4], [3], [4], [3], [4], [3], [4 :: int]]"
  have h0: "config_batch_size example_env_ten = 4"
    by (simp add: example_env_ten_def)
  have h1: "(0::int) < 4" and h2: "(0::int) \<le> 10"
    by simp_all
  have pa: "snd (parse_args ?argv) = Inr ?a"
    by (simp add: parse_args_def example_argv_def ret_def)
  have gt: "get_text_sequences example_env_ten (arg_text_file_path ?a) (arg_vocab_size ?a) =
              Inr (?ps, ?lens, ?wi, 3, ?acts)"
    by (simp add: example_env_ten_def)
  have n: "int (length ?ps) = 10"
    by simp
  have ok: "snd (main example_env_ten ?argv) = Inr ()"
    by code_simp
  have fl: "arg_infer_sequences ?a" "arg_generate_novel_text ?a"
    by simp_all
  note T = truncation_to_whole_batches[OF h0 h1 h2, where ?'f = nat]
  from T obtain used where
    u: "samples_size 4 10 = Inr used" "used = 10 - 10 mod 4"
    and t: "\<forall>ls (es :: nat list). covers ls es (nat used) \<longrightarrow>
              (\<exists>m. label_embedding_map 4 es 10 ls = Inr m)"
    and r: "\<forall>ls (es :: nat list) m. label_embedding_map 4 es 10 ls = Inr m \<longrightarrow>
              covers ls es (nat used) \<and> int (total_embeddings m) = used"
    and mn: "snd (parse_args ?argv) = Inr ?a \<and>
             get_text_sequences example_env_ten (arg_text_file_path ?a) (arg_vocab_size ?a) =
               Inr (?ps, ?lens, ?wi, 3, ?acts) \<and>
             int (length ?ps) = 10 \<longrightarrow>
             (snd (main example_env_ten ?argv) = Inr () \<longrightarrow>
                (arg_infer_sequences ?a \<longrightarrow>
                   Infer InferSession 0 used \<in> set (fst (main example_env_ten ?argv))) \<and>
                (arg_generate_novel_text ?a \<longrightarrow>
                   GenerateNovelSentences GenerateSession 0 used \<in>
                     set (fst (main example_env_ten ?argv))))"
  proof (elim exE conjE, goal_cases)
    case (1 used)
    from 1(13)[rule_format, of ?argv ?a ?ps ?lens ?wi 3 ?acts]
    have "snd (parse_args ?argv) = Inr ?a \<and>
             get_text_sequences example_env_ten (arg_text_file_path ?a) (arg_vocab_size ?a) =
               Inr (?ps, ?lens, ?wi, 3, ?acts) \<and>
             int (length ?ps) = 10 \<longrightarrow>
             (snd (main example_env_ten ?argv) = Inr () \<longrightarrow>
                (arg_infer_sequences ?a \<longrightarrow>
                   Infer InferSession 0 used \<in> set (fst (main example_env_ten ?argv))) \<and>
                (arg_generate_novel_text ?a \<longrightarrow>
                   GenerateNovelSentences GenerateSession 0 used \<in>
                     set (fst (main example_env_ten ?argv))))"
      by blast
    with 1(1)[OF 1(2,3) 1(9,10)] show ?case
      by blast
  qed
  have u8: "used = 8"
    using u(2) by simp
  have c: "covers ?ls ?es (nat 8)"
    by code_simp
  from t c u8 obtain m where m: "label_embedding_map 4 ?es 10 ?ls = Inr m"
    by blast
  with r u8 have tm: "total_embeddings m = 8"
    by fastforce
  from mn pa gt n ok fl u8 have calls:
    "Infer InferSession 0 8 \<in> set (fst (main example_env_ten ?argv))"
    "GenerateNovelSentences GenerateSession 0 8 \<in> set (fst (main example_env_ten ?argv))"
    by blast+
  have tr: "filter is_inference (fst (main example_env_ten ?argv)) =
              [Infer InferSession 0 8, GenerateNovelSentences GenerateSession 0 8]"
    by code_simp
  have gw: "WriteLines ''output/actual_sentences_20180101000000.txt''
       [''good <eos> <eos>'', ''bad <eos> <eos>'', ''good <eos> <eos>'', ''bad <eos> <eos>'',
        ''good <eos> <eos>'', ''bad <eos> <eos>'', ''good <eos> <eos>'', ''bad <eos> <eos>''] \<in>
     set (fst (main example_env_ten ?argv))"
    by code_simp
  from h0 m tm u u8 ok calls tr gw show ?thesis
    by auto
qed


end
